theory Spec2Isabelle
  imports Complex_Main "HOL-Library.AList" "HOL-Library.Sublist"
begin

section \<open>Text, Python values and the string primitives the analyzers call\<close>

text \<open>
  A Python \<open>str\<close> is a sequence of Unicode code points; \<open>len\<close> counts code points.
  A text is therefore a list of code points (natural numbers), not a list of bytes.
\<close>

type_synonym ustring = "nat list"

text \<open>
  Values stored in a result mapping. Python \<open>float\<close>s are idealised as real numbers
  (no binary rounding, no overflow); \<open>int\<close>s are unbounded integers. A result
  mapping is an insertion-ordered association list, as a Python \<open>dict\<close> is.
\<close>

datatype pyval = PInt int | PFloat real | PDict "(int \<times> int) list"

type_synonym pydict = "(ustring \<times> pyval) list"

definition asc :: "string \<Rightarrow> ustring" where
  "asc s = map of_char s"

definition len :: "'a list \<Rightarrow> int" where
  "len xs = int (length xs)"

text \<open>
  \<open>round(x, nd)\<close>: a float is rounded to \<open>nd\<close> decimals, ties to even; an int is
  returned unchanged (for \<open>nd \<ge> 0\<close>).
\<close>

definition round_half_even :: "real \<Rightarrow> int" where
  "round_half_even y =
     (let f = \<lfloor>y\<rfloor>; d = y - of_int f
      in if d < 1 / 2 then f else if 1 / 2 < d then f + 1 else if even f then f else f + 1)"

definition py_round :: "nat \<Rightarrow> real \<Rightarrow> real" where
  "py_round nd x = of_int (round_half_even (x * 10 ^ nd)) / 10 ^ nd"

fun py_round_val :: "nat \<Rightarrow> pyval \<Rightarrow> pyval" where
  "py_round_val nd (PFloat x) = PFloat (py_round nd x)"
| "py_round_val nd v = v"

text \<open>
  \<open>str.isspace\<close> for one code point, which is also the class \<open>\s\<close> of \<open>re\<close> on
  \<open>str\<close> patterns: the white-space code points of CPython.
\<close>

definition py_isspace :: "nat \<Rightarrow> bool" where
  "py_isspace c \<longleftrightarrow>
     (9 \<le> c \<and> c \<le> 13) \<or> (28 \<le> c \<and> c \<le> 32) \<or> c = 133 \<or> c = 160 \<or> c = 5760 \<or>
     (8192 \<le> c \<and> c \<le> 8202) \<or> c = 8232 \<or> c = 8233 \<or> c = 8239 \<or> c = 8287 \<or> c = 12288"

definition strip :: "ustring \<Rightarrow> ustring" where
  "strip s = rev (dropWhile py_isspace (rev (dropWhile py_isspace s)))"

text \<open>\<open>not text.strip()\<close>: the text is empty or white space only.\<close>

definition blank :: "ustring \<Rightarrow> bool" where
  "blank text \<longleftrightarrow> strip text = []"

text \<open>
  \<open>re.split(r'[.!?]+', text)\<close>: the pieces between maximal runs of the three sentence
  terminators, empty pieces included. \<open>cur\<close> is the piece being read, \<open>in_run\<close> tells
  that the previous code point was a terminator.
\<close>

definition is_terminator :: "nat \<Rightarrow> bool" where
  "is_terminator c \<longleftrightarrow> c = 46 \<or> c = 33 \<or> c = 63"

fun re_split_terminators :: "ustring \<Rightarrow> bool \<Rightarrow> ustring \<Rightarrow> ustring list" where
  "re_split_terminators cur in_run [] = [cur]"
| "re_split_terminators cur in_run (c # cs) =
     (if is_terminator c
      then (if in_run then re_split_terminators [] True cs
            else cur # re_split_terminators [] True cs)
      else re_split_terminators (cur @ [c]) False cs)"

definition re_split :: "ustring \<Rightarrow> ustring list" where
  "re_split text = re_split_terminators [] False text"

text \<open>
  The word patterns \<open>\b[C]+(?:-[C]+)*\b\<close> and \<open>\b[C]+\b\<close>, for a character class
  \<open>C\<close>. The class \<open>\w\<close> that decides \<open>\b\<close> is Python's Unicode table, which is not
  part of the repository: it is the parameter \<open>W\<close>. The matcher follows the
  backtracking order of \<open>re\<close>: a greedy \<open>+\<close> first tries to take one more code point,
  a greedy \<open>*\<close> first tries one more hyphenated group, and only then the closing
  \<open>\b\<close> is tested. On success the unread rest of the string is returned.
  \<open>hy\<close> tells whether the pattern has the hyphen group.
\<close>

fun re_word_plus :: "(nat \<Rightarrow> bool) \<Rightarrow> (nat \<Rightarrow> bool) \<Rightarrow> bool \<Rightarrow> ustring \<Rightarrow> ustring option"
  and re_word_star :: "(nat \<Rightarrow> bool) \<Rightarrow> (nat \<Rightarrow> bool) \<Rightarrow> bool \<Rightarrow> nat \<Rightarrow> ustring \<Rightarrow> ustring option"
where
  "re_word_plus W C hy [] = None"
| "re_word_plus W C hy (c # cs) =
     (if C c
      then (case re_word_plus W C hy cs of
              Some r \<Rightarrow> Some r
            | None \<Rightarrow> re_word_star W C hy c cs)
      else None)"
| "re_word_star W C hy p [] = (if W p then Some [] else None)"
| "re_word_star W C hy p (c # cs) =
     (case (if hy \<and> c = 45 then re_word_plus W C hy cs else None) of
        Some r \<Rightarrow> Some r
      | None \<Rightarrow> if W p \<noteq> W c then Some (c # cs) else None)"

text \<open>
  \<open>re.findall\<close>: scan from the left; at each position where the opening \<open>\b\<close> holds
  try the pattern; a match is emitted and the scan resumes after it (\<open>skip\<close> counts the
  code points of the match still to pass over), otherwise it moves one code point on.
  \<open>p\<close> is the code point before the position, \<open>None\<close> at the start of the string.
\<close>

fun re_findall_scan :: "(nat \<Rightarrow> bool) \<Rightarrow> (nat \<Rightarrow> bool) \<Rightarrow> bool \<Rightarrow> nat \<Rightarrow> nat option \<Rightarrow> ustring \<Rightarrow> ustring list" where
  "re_findall_scan W C hy skip p [] = []"
| "re_findall_scan W C hy skip p (c # cs) =
     (if 0 < skip then re_findall_scan W C hy (skip - 1) (Some c) cs
      else (case (if (case p of None \<Rightarrow> False | Some q \<Rightarrow> W q) \<noteq> W c
                  then re_word_plus W C hy (c # cs) else None) of
              Some r \<Rightarrow>
                (let m = take (length (c # cs) - length r) (c # cs)
                 in m # re_findall_scan W C hy (length m - 1) (Some c) cs)
            | None \<Rightarrow> re_findall_scan W C hy 0 (Some c) cs))"

definition re_findall_words :: "(nat \<Rightarrow> bool) \<Rightarrow> (nat \<Rightarrow> bool) \<Rightarrow> bool \<Rightarrow> ustring \<Rightarrow> ustring list" where
  "re_findall_words W C hy s = re_findall_scan W C hy 0 None s"

text \<open>
  The character classes of the word patterns: the Cyrillic small letters U+0430 to
  U+044F with U+0451, and the mixed class that adds the capitals U+0410 to U+042F,
  U+0401 and the Latin letters.
\<close>

definition cyr_lower :: "nat \<Rightarrow> bool" where
  "cyr_lower c \<longleftrightarrow> (1072 \<le> c \<and> c \<le> 1103) \<or> c = 1105"

definition cyr_latin :: "nat \<Rightarrow> bool" where
  "cyr_latin c \<longleftrightarrow>
     (1072 \<le> c \<and> c \<le> 1103) \<or> (1040 \<le> c \<and> c \<le> 1071) \<or> c = 1105 \<or> c = 1025 \<or>
     (97 \<le> c \<and> c \<le> 122) \<or> (65 \<le> c \<and> c \<le> 90)"

text \<open>The vowel string \<open>vowels\<close> of every \<open>_count_syllables_ru\<close>.\<close>

definition vowels :: ustring where
  "vowels = [1072, 1077, 1105, 1080, 1086, 1091, 1099, 1101, 1102, 1103]"


text \<open>
  Two concrete tables, used where a text is evaluated. The first is \<open>\w\<close> on Basic Latin
  and the Cyrillic block U+0400 to U+04FF; the second is \<open>str.lower\<close>, code point by code
  point, on Basic Latin and the Cyrillic code points U+0400 to U+045F. Python's tables
  agree with them there; the texts evaluated below stay within these ranges.
\<close>

definition w_latin_cyrillic :: "nat \<Rightarrow> bool" where
  "w_latin_cyrillic c \<longleftrightarrow>
     (48 \<le> c \<and> c \<le> 57) \<or> (65 \<le> c \<and> c \<le> 90) \<or> c = 95 \<or> (97 \<le> c \<and> c \<le> 122) \<or>
     (1024 \<le> c \<and> c \<le> 1153) \<or> (1162 \<le> c \<and> c \<le> 1279)"

definition lower_cp :: "nat \<Rightarrow> nat" where
  "lower_cp c =
     (if 65 \<le> c \<and> c \<le> 90 then c + 32
      else if 1040 \<le> c \<and> c \<le> 1071 then c + 32
      else if 1024 \<le> c \<and> c \<le> 1039 then c + 80
      else c)"

definition lower_latin_cyrillic :: "ustring \<Rightarrow> ustring" where
  "lower_latin_cyrillic s = map lower_cp s"

section \<open>TextComplexityMetrics (textComplexityMetrics.py)\<close>

definition k_avg_sentence_length :: ustring where
  "k_avg_sentence_length = asc ''avg_sentence_length''"

definition k_avg_word_syllables :: ustring where
  "k_avg_word_syllables = asc ''avg_word_syllables''"

definition k_avg_word_letters :: ustring where
  "k_avg_word_letters = asc ''avg_word_letters''"

definition k_sentence_count :: ustring where
  "k_sentence_count = asc ''sentence_count''"

definition k_word_count :: ustring where
  "k_word_count = asc ''word_count''"

definition k_char_count :: ustring where
  "k_char_count = asc ''char_count''"

definition k_confidence_hint :: ustring where
  "k_confidence_hint = asc ''confidence_hint''"

text \<open>
  The three keys of the non-blank result are Russian labels followed by the ASCII name in
  parentheses; in the third the first letter of \<open>avg\<close> is the Cyrillic U+0430.
\<close>

definition k_ru_avg_sentence_length :: ustring where
  "k_ru_avg_sentence_length =
     [1057, 1088, 1077, 1076, 1085, 1103, 1103, 32, 1076, 1083, 1080, 1085, 1072, 32, 1087,
      1088, 1077, 1076, 1083, 1086, 1078, 1077, 1085, 1080, 1103, 32]
     @ asc ''(avg_sentence_length)''"

definition k_ru_avg_word_syllables :: ustring where
  "k_ru_avg_word_syllables =
     [1057, 1088, 1077, 1076, 1085, 1103, 1103, 32, 1076, 1083, 1080, 1085, 1072, 32, 1089,
      1083, 1086, 1074, 1072, 32, 40, 1074, 32, 1089, 1083, 1086, 1075, 1072, 1093, 41, 32]
     @ asc ''(avg_word_syllables)''"

definition k_ru_avg_word_letters :: ustring where
  "k_ru_avg_word_letters =
     [1057, 1088, 1077, 1076, 1085, 1103, 1103, 32, 1076, 1083, 1080, 1085, 1072, 32, 1089,
      1083, 1086, 1074, 1072, 32, 40, 1074, 32, 1073, 1091, 1082, 1074, 1072, 1093, 41, 32,
      40, 1072]
     @ asc ''vg_word_letters)''"

definition TCM_split_sentences :: "ustring \<Rightarrow> ustring list" where
  "TCM_split_sentences text = map strip (filter (\<lambda>s. strip s \<noteq> []) (re_split text))"

definition TCM_split_words :: "(nat \<Rightarrow> bool) \<Rightarrow> ustring \<Rightarrow> ustring list" where
  "TCM_split_words W sentence = re_findall_words W cyr_latin True sentence"

definition TCM_count_syllables_ru :: "(ustring \<Rightarrow> ustring) \<Rightarrow> ustring \<Rightarrow> int" where
  "TCM_count_syllables_ru L word = max 1 (len (filter (\<lambda>ch. ch \<in> set vowels) (L word)))"

text \<open>
  \<open>compute\<close>. \<open>W\<close> is the table of \<open>\w\<close> and \<open>L\<close> is \<open>str.lower\<close>. An average with an empty
  denominator is the int \<open>0\<close>, which \<open>round\<close> leaves an int. The confidence is assigned
  three times in sequence, as in the source.
\<close>

definition TCM_compute :: "(nat \<Rightarrow> bool) \<Rightarrow> (ustring \<Rightarrow> ustring) \<Rightarrow> ustring \<Rightarrow> pydict" where
  "TCM_compute W L text =
     (if blank text
      then [(k_avg_sentence_length, PFloat 0),
            (k_avg_word_syllables, PFloat 0),
            (k_avg_word_letters, PFloat 0),
            (k_sentence_count, PInt 0),
            (k_word_count, PInt 0),
            (k_char_count, PInt (len text)),
            (k_confidence_hint, PFloat 0)]
      else
        (let sentences = TCM_split_sentences text;
             words = concat (map (TCM_split_words W) sentences);
             avg_sent_len = (if sentences \<noteq> []
                             then PFloat (of_int (len words) / of_int (len sentences))
                             else PInt 0);
             syllables = map (TCM_count_syllables_ru L) words;
             avg_syllables = (if syllables \<noteq> []
                              then PFloat (of_int (sum_list syllables) / of_int (len syllables))
                              else PInt 0);
             letters = map len words;
             avg_letters = (if letters \<noteq> []
                            then PFloat (of_int (sum_list letters) / of_int (len letters))
                            else PInt 0);
             confidence0 = 1;
             confidence1 = (if len sentences < 2 then 1 / 2 else confidence0);
             confidence = (if len words < 5 then 3 / 10 else confidence1)
         in [(k_ru_avg_sentence_length, py_round_val 2 avg_sent_len),
             (k_ru_avg_word_syllables, py_round_val 2 avg_syllables),
             (k_ru_avg_word_letters, py_round_val 2 avg_letters),
             (k_sentence_count, PInt (len sentences)),
             (k_word_count, PInt (len words)),
             (k_char_count, PInt (len text)),
             (k_confidence_hint, PFloat (py_round 2 confidence))]))"

section \<open>The second TextComplexityMetrics (ReadabilityIndexCalculator.py)\<close>

definition RIC_TCM_split_sentences :: "ustring \<Rightarrow> ustring list" where
  "RIC_TCM_split_sentences text = map strip (filter (\<lambda>s. strip s \<noteq> []) (re_split text))"

definition RIC_TCM_split_words :: "(nat \<Rightarrow> bool) \<Rightarrow> ustring \<Rightarrow> ustring list" where
  "RIC_TCM_split_words W sentence = re_findall_words W cyr_latin True sentence"

definition RIC_TCM_count_syllables_ru :: "(ustring \<Rightarrow> ustring) \<Rightarrow> ustring \<Rightarrow> int" where
  "RIC_TCM_count_syllables_ru L word = max 1 (len (filter (\<lambda>ch. ch \<in> set vowels) (L word)))"

definition RIC_TCM_compute :: "(nat \<Rightarrow> bool) \<Rightarrow> (ustring \<Rightarrow> ustring) \<Rightarrow> ustring \<Rightarrow> pydict" where
  "RIC_TCM_compute W L text =
     (if blank text
      then [(k_avg_sentence_length, PFloat 0),
            (k_avg_word_syllables, PFloat 0),
            (k_avg_word_letters, PFloat 0),
            (k_sentence_count, PInt 0),
            (k_word_count, PInt 0),
            (k_char_count, PInt (len text)),
            (k_confidence_hint, PFloat 0)]
      else
        (let sentences = RIC_TCM_split_sentences text;
             words = concat (map (RIC_TCM_split_words W) sentences);
             avg_sent_len = (if sentences \<noteq> []
                             then PFloat (of_int (len words) / of_int (len sentences))
                             else PInt 0);
             syllables = map (RIC_TCM_count_syllables_ru L) words;
             avg_syllables = (if syllables \<noteq> []
                              then PFloat (of_int (sum_list syllables) / of_int (len syllables))
                              else PInt 0);
             letters = map len words;
             avg_letters = (if letters \<noteq> []
                            then PFloat (of_int (sum_list letters) / of_int (len letters))
                            else PInt 0);
             confidence0 = 1;
             confidence1 = (if len sentences < 2 then 1 / 2 else confidence0);
             confidence = (if len words < 5 then 3 / 10 else confidence1)
         in [(k_ru_avg_sentence_length, py_round_val 2 avg_sent_len),
             (k_ru_avg_word_syllables, py_round_val 2 avg_syllables),
             (k_ru_avg_word_letters, py_round_val 2 avg_letters),
             (k_sentence_count, PInt (len sentences)),
             (k_word_count, PInt (len words)),
             (k_char_count, PInt (len text)),
             (k_confidence_hint, PFloat (py_round 2 confidence))]))"

text \<open>The text of the two-sentence scenario: five Russian words, a full stop and an exclamation mark.\<close>

definition text_kot :: ustring where
  "text_kot =
     [1050, 1086, 1090, 32, 1089, 1087, 1080, 1090, 46, 32, 1057, 1086, 1073, 1072, 1082,
      1072, 32, 1073, 1077, 1078, 1080, 1090, 32, 1073, 1099, 1089, 1090, 1088, 1086, 33]"

section \<open>DescriptiveTextMetrics (descriptiveTextMetrics.py)\<close>

definition k_word_forms_total :: ustring where
  "k_word_forms_total = asc ''word_forms_total''"

definition k_unique_words :: ustring where
  "k_unique_words = asc ''unique_words''"

text \<open>The key of the unique-word count in the non-blank result: a Russian label and the ASCII name.\<close>

definition k_ru_unique_words :: ustring where
  "k_ru_unique_words =
     [1059, 1085, 1080, 1082, 1072, 1083, 1100, 1085, 1099, 1077, 32, 1089, 1083, 1086, 1074,
      1072, 32]
     @ asc ''(unique_words)''"

definition k_monosyllabic_words :: ustring where
  "k_monosyllabic_words = asc ''monosyllabic_words''"

definition k_disyllabic_words :: ustring where
  "k_disyllabic_words = asc ''disyllabic_words''"

definition k_trisyllabic_words :: ustring where
  "k_trisyllabic_words = asc ''trisyllabic_words''"

definition k_polysyllabic_words :: ustring where
  "k_polysyllabic_words = asc ''polysyllabic_words''"

definition k_word_syllable_distribution :: ustring where
  "k_word_syllable_distribution = asc ''word_syllable_distribution''"

definition k_lexical_diversity :: ustring where
  "k_lexical_diversity = asc ''lexical_diversity''"

text \<open>\<open>d.get(k, dflt)\<close> and \<open>d[k] = v\<close> on an insertion-ordered dict.\<close>

definition dict_get :: "('k \<times> 'v) list \<Rightarrow> 'k \<Rightarrow> 'v \<Rightarrow> 'v" where
  "dict_get d k dflt = (case map_of d k of None \<Rightarrow> dflt | Some v \<Rightarrow> v)"

definition dict_set :: "('k \<times> 'v) list \<Rightarrow> 'k \<Rightarrow> 'v \<Rightarrow> ('k \<times> 'v) list" where
  "dict_set d k v = AList.update k v d"

definition DTM_split_sentences :: "ustring \<Rightarrow> ustring list" where
  "DTM_split_sentences text = map strip (filter (\<lambda>s. strip s \<noteq> []) (re_split text))"

definition DTM_extract_words :: "(nat \<Rightarrow> bool) \<Rightarrow> (ustring \<Rightarrow> ustring) \<Rightarrow> ustring \<Rightarrow> ustring list" where
  "DTM_extract_words W L text = re_findall_words W cyr_lower True (L text)"

definition DTM_count_syllables_ru :: "ustring \<Rightarrow> int" where
  "DTM_count_syllables_ru word = max 1 (len (filter (\<lambda>ch. ch \<in> set vowels) word))"

text \<open>The loop \<open>for sc in syllable_counts: distribution[sc] = distribution.get(sc, 0) + 1\<close>.\<close>

fun DTM_distribution :: "(int \<times> int) list \<Rightarrow> int list \<Rightarrow> (int \<times> int) list" where
  "DTM_distribution distribution [] = distribution"
| "DTM_distribution distribution (sc # scs) =
     DTM_distribution (dict_set distribution sc (dict_get distribution sc 0 + 1)) scs"

definition DTM_compute :: "(nat \<Rightarrow> bool) \<Rightarrow> (ustring \<Rightarrow> ustring) \<Rightarrow> ustring \<Rightarrow> pydict" where
  "DTM_compute W L text =
     (if blank text
      then [(k_word_forms_total, PInt 0),
            (k_unique_words, PInt 0),
            (k_sentence_count, PInt 0),
            (k_monosyllabic_words, PInt 0),
            (k_disyllabic_words, PInt 0),
            (k_trisyllabic_words, PInt 0),
            (k_polysyllabic_words, PInt 0),
            (k_word_syllable_distribution, PDict [])]
      else
        (let sentences = DTM_split_sentences text;
             all_words = DTM_extract_words W L text;
             unique_words = remdups all_words;
             syllable_counts = map DTM_count_syllables_ru all_words;
             distribution = DTM_distribution [] syllable_counts
         in [(k_word_forms_total, PInt (len all_words)),
             (k_ru_unique_words, PInt (len unique_words)),
             (k_sentence_count, PInt (len sentences)),
             (k_monosyllabic_words, PInt (dict_get distribution 1 0)),
             (k_disyllabic_words, PInt (dict_get distribution 2 0)),
             (k_trisyllabic_words, PInt (dict_get distribution 3 0)),
             (k_polysyllabic_words,
                PInt (sum_list (map snd (filter (\<lambda>(k, v). 4 \<le> k) distribution)))),
             (k_word_syllable_distribution, PDict distribution),
             (k_lexical_diversity,
                (if all_words \<noteq> []
                 then PFloat (py_round 3 (of_int (len unique_words) / of_int (len all_words)))
                 else PFloat 0))]))"

section \<open>ReadabilityIndexCalculator (ReadabilityIndexCalculator.py)\<close>

text \<open>The result mapping has the same thirteen keys on every path, so it is a record.\<close>

record readability =
  flesch_reading_ease :: real
  smog_grade :: real
  simple_level :: real
  school_grade :: real
  avg_sentence_words :: real
  avg_word_syllables :: real
  polysyllabic_words_ge3 :: int
  polysyllabic_words_ge4 :: int
  long_sentences_gt15 :: int
  long_words_ge7 :: int
  flesch_level :: ustring
  is_child_friendly :: bool
  confidence_hint :: real

definition RIC_split_sentences :: "ustring \<Rightarrow> ustring list" where
  "RIC_split_sentences text = map strip (filter (\<lambda>s. strip s \<noteq> []) (re_split text))"

definition RIC_extract_words :: "(nat \<Rightarrow> bool) \<Rightarrow> (ustring \<Rightarrow> ustring) \<Rightarrow> ustring \<Rightarrow> ustring list" where
  "RIC_extract_words W L text = re_findall_words W cyr_lower True (L text)"

definition RIC_count_syllables_ru :: "ustring \<Rightarrow> int" where
  "RIC_count_syllables_ru word = max 1 (len (filter (\<lambda>ch. ch \<in> set vowels) word))"

text \<open>
  \<open>_interpret_flesch\<close>: seven Russian labels, chosen top-down by the thresholds
  90, 80, 70, 60, 50 and 30.
\<close>

definition RIC_interpret_flesch :: "real \<Rightarrow> ustring" where
  "RIC_interpret_flesch score =
     (if 90 \<le> score then
        [1086, 1095, 1077, 1085, 1100, 32, 1083, 1077, 1075, 1082, 1086, 32, 40, 49, 8211, 51,
         32, 1082, 1083, 46, 41]
      else if 80 \<le> score then
        [1083, 1077, 1075, 1082, 1086, 32, 40, 52, 8211, 53, 32, 1082, 1083, 46, 41]
      else if 70 \<le> score then
        [1076, 1086, 1074, 1086, 1083, 1100, 1085, 1086, 32, 1083, 1077, 1075, 1082, 1086, 32,
         40, 54, 8211, 55, 32, 1082, 1083, 46, 41]
      else if 60 \<le> score then
        [1089, 1088, 1077, 1076, 1085, 1077, 32, 40, 56, 8211, 57, 32, 1082, 1083, 46, 41]
      else if 50 \<le> score then
        [1076, 1086, 1074, 1086, 1083, 1100, 1085, 1086, 32, 1089, 1083, 1086, 1078, 1085, 1086,
         32, 40, 49, 48, 8211, 49, 49, 32, 1082, 1083, 46, 41]
      else if 30 \<le> score then
        [1089, 1083, 1086, 1078, 1085, 1086, 32, 40, 1089, 1090, 1091, 1076, 1077, 1085, 1090,
         1099, 41]
      else
        [1086, 1095, 1077, 1085, 1100, 32, 1089, 1083, 1086, 1078, 1085, 1086, 32, 40, 1072,
         1082, 1072, 1076, 1077, 1084, 1080, 1082, 1080, 41])"

definition RIC_empty_result :: readability where
  "RIC_empty_result =
     \<lparr>flesch_reading_ease = 0, smog_grade = 0, simple_level = 0, school_grade = 0,
      avg_sentence_words = 0, avg_word_syllables = 0,
      polysyllabic_words_ge3 = 0, polysyllabic_words_ge4 = 0,
      long_sentences_gt15 = 0, long_words_ge7 = 0,
      flesch_level = [1087, 1091, 1089, 1090, 1086],
      is_child_friendly = False, confidence_hint = 0\<rparr>"

text \<open>
  \<open>compute\<close>. The float power \<open>x ** 0.5\<close> of a non-negative \<open>x\<close> is the square root.
  \<open>smog\<close> is rounded twice, as in the source.
\<close>

definition RIC_compute :: "(nat \<Rightarrow> bool) \<Rightarrow> (ustring \<Rightarrow> ustring) \<Rightarrow> ustring \<Rightarrow> readability" where
  "RIC_compute W L text =
     (if blank text then RIC_empty_result
      else
        (let sentences = RIC_split_sentences text;
             words = RIC_extract_words W L text;
             n_sentences = len sentences;
             n_words = len words
         in if n_words = 0 \<or> n_sentences = 0 then RIC_empty_result
            else
              (let syllables = map RIC_count_syllables_ru words;
                   n_syllables = sum_list syllables;
                   polysyllables = len (filter (\<lambda>s. 3 \<le> s) syllables);
                   asl = of_int n_words / of_int n_sentences;
                   asw = of_int n_syllables / of_int n_words;
                   flesch0 = 206.835 - 1.3 * asw - 60.1 * (of_int n_sentences / of_int n_words);
                   flesch = max 0 (min 100 flesch0);
                   smog = (if 10 \<le> n_sentences
                           then 1.043 * sqrt (30 * of_int polysyllables / of_int n_sentences) + 3.1291
                           else 1 + 0.1 * of_int polysyllables);
                   long_sentences =
                     len (filter (\<lambda>s. 15 < len (RIC_extract_words W L s)) sentences);
                   long_words = len (filter (\<lambda>w. 7 \<le> len w) words);
                   polysyllables_4 = len (filter (\<lambda>s. 4 \<le> s) syllables);
                   simple_score = 0.5 * of_int long_sentences + 1 * of_int polysyllables_4
                                  + 0.2 * of_int long_words;
                   simple_level = min 5 (max 1 (1 + simple_score / 5));
                   school_level0 = 0.39 * asl + 11.8 * asw - 15.59;
                   school_level = max 1 (min 12 school_level0);
                   flesch_level = RIC_interpret_flesch flesch;
                   smog_grade = py_round 1 smog
               in \<lparr>flesch_reading_ease = py_round 1 flesch,
                   smog_grade = py_round 1 smog_grade,
                   simple_level = py_round 1 simple_level,
                   school_grade = py_round 1 school_level,
                   avg_sentence_words = py_round 2 asl,
                   avg_word_syllables = py_round 2 asw,
                   polysyllabic_words_ge3 = polysyllables,
                   polysyllabic_words_ge4 = polysyllables_4,
                   long_sentences_gt15 = long_sentences,
                   long_words_ge7 = long_words,
                   flesch_level = flesch_level,
                   is_child_friendly = (70 \<le> flesch \<and> simple_level \<le> 2.5),
                   confidence_hint = (if 20 \<le> n_words then 1 else 0.6)\<rparr>)))"

section \<open>MorphoMetrics (morpho_metrics.py)\<close>

text \<open>
  The morphological analyzer is an external library. Its \<open>parse\<close> is a parameter \<open>M\<close>: a
  deterministic function from a word to either a raised exception or the ranked list of
  candidate parses. A candidate carries what the code reads of it: \<open>tag.POS\<close> (a string
  or \<open>None\<close>), \<open>normal_form\<close> and \<open>tag.aspect\<close> (a string or \<open>None\<close>). Tags are ASCII
  names and are written as byte strings.
\<close>

datatype pyerror = ParseFailure | TypeError

record candidate =
  POS :: "string option"
  normal_form :: ustring
  aspect :: "string option"

type_synonym morph = "ustring \<Rightarrow> pyerror + candidate list"

text \<open>The instance state: the cache dict, in insertion order, and its configured size.\<close>

record MorphoMetrics =
  cache :: "(ustring \<times> string) list"
  cache_size :: int

definition MM_init :: "int \<Rightarrow> MorphoMetrics" where
  "MM_init c = \<lparr>cache = [], cache_size = c\<rparr>"

text \<open>
  \<open>_get_pos\<close> returns the tag or the exception of \<open>parse\<close>, and the instance, whose cache
  has grown by one entry when the word was not cached and there was room.
  \<open>parsed[0].tag.POS or "UNKNOWN"\<close> replaces \<open>None\<close> and the empty string.
\<close>

definition MM_get_pos :: "morph \<Rightarrow> MorphoMetrics \<Rightarrow> ustring \<Rightarrow> (pyerror + string) \<times> MorphoMetrics" where
  "MM_get_pos M self word =
     (if word = [] then (Inr ''UNKNOWN'', self)
      else
        (case map_of (cache self) word of
           Some t \<Rightarrow> (Inr t, self)
         | None \<Rightarrow>
             (case M word of
                Inl e \<Rightarrow> (Inl e, self)
              | Inr parsed \<Rightarrow>
                  (let pos = (case parsed of
                                [] \<Rightarrow> ''UNKNOWN''
                              | c # _ \<Rightarrow>
                                  (case POS c of
                                     None \<Rightarrow> ''UNKNOWN''
                                   | Some t \<Rightarrow> if t = [] then ''UNKNOWN'' else t))
                   in (Inr pos,
                       if len (cache self) < cache_size self
                       then self\<lparr>cache := cache self @ [(word, pos)]\<rparr>
                       else self)))))"

definition MM_extract_words :: "(nat \<Rightarrow> bool) \<Rightarrow> (ustring \<Rightarrow> ustring) \<Rightarrow> ustring \<Rightarrow> ustring list" where
  "MM_extract_words W L text = re_findall_words W cyr_lower False (L text)"

text \<open>The comprehension \<open>[self._get_pos(w) for w in words]\<close>; an exception ends it.\<close>

fun MM_pos_list :: "morph \<Rightarrow> MorphoMetrics \<Rightarrow> ustring list \<Rightarrow> (pyerror + string list) \<times> MorphoMetrics" where
  "MM_pos_list M self [] = (Inr [], self)"
| "MM_pos_list M self (w # ws) =
     (case MM_get_pos M self w of
        (Inl e, self') \<Rightarrow> (Inl e, self')
      | (Inr t, self') \<Rightarrow>
          (case MM_pos_list M self' ws of
             (Inl e, self'') \<Rightarrow> (Inl e, self'')
           | (Inr ts, self'') \<Rightarrow> (Inr (t # ts), self'')))"

text \<open>
  The loop of \<open>_compute_perfective_verb_ratio\<close> over the two counters.
  \<open>"perf" in tag.aspect\<close> is a substring test and raises \<open>TypeError\<close> on \<open>None\<close>.
\<close>

fun MM_perfective_loop :: "morph \<Rightarrow> int \<times> int \<Rightarrow> ustring list \<Rightarrow> pyerror + int \<times> int" where
  "MM_perfective_loop M (perfective_count, verb_count) [] = Inr (perfective_count, verb_count)"
| "MM_perfective_loop M (perfective_count, verb_count) (w # ws) =
     (case M w of
        Inl e \<Rightarrow> Inl e
      | Inr [] \<Rightarrow> MM_perfective_loop M (perfective_count, verb_count) ws
      | Inr (c # _) \<Rightarrow>
          (if POS c = Some ''VERB'' \<or> POS c = Some ''INFN''
           then (case aspect c of
                   None \<Rightarrow> Inl TypeError
                 | Some a \<Rightarrow>
                     MM_perfective_loop M
                       (if sublist ''perf'' a then perfective_count + 1 else perfective_count,
                        verb_count + 1) ws)
           else MM_perfective_loop M (perfective_count, verb_count) ws))"

definition MM_compute_perfective_verb_ratio :: "morph \<Rightarrow> ustring list \<Rightarrow> pyerror + pyval" where
  "MM_compute_perfective_verb_ratio M words =
     (case MM_perfective_loop M (0, 0) words of
        Inl e \<Rightarrow> Inl e
      | Inr (perfective_count, verb_count) \<Rightarrow>
          Inr (if verb_count \<noteq> 0
               then PFloat (py_round 3 (of_int perfective_count / of_int verb_count))
               else PFloat 0))"

text \<open>The eight suffixes of \<open>_count_diminutives\<close>, two of them listed twice.\<close>

definition MM_suffixes :: "ustring list" where
  "MM_suffixes =
     [[1086, 1095, 1082], [1077, 1085, 1100, 1082], [1086, 1085, 1100, 1082],
      [1077, 1085, 1100, 1082], [1091, 1096, 1082], [1099, 1096, 1082],
      [1080, 1095, 1082], [1080, 1095, 1082]]"

fun MM_count_diminutives :: "morph \<Rightarrow> ustring list \<Rightarrow> pyerror + int" where
  "MM_count_diminutives M [] = Inr 0"
| "MM_count_diminutives M (w # ws) =
     (case M w of
        Inl e \<Rightarrow> Inl e
      | Inr parsed \<Rightarrow>
          (let norm = (case parsed of [] \<Rightarrow> w | c # _ \<Rightarrow> normal_form c)
           in (case MM_count_diminutives M ws of
                 Inl e \<Rightarrow> Inl e
               | Inr n \<Rightarrow> Inr ((if list_ex (\<lambda>s. suffix s norm) MM_suffixes then 1 else 0) + n))))"

text \<open>
  \<open>re.findall\<close> of the guillemet pattern: at an opening guillemet (U+00AB) with a closing
  one (U+00BB) somewhere after it, the match runs to the first closing one.
\<close>

fun re_count_quoted :: "nat \<Rightarrow> ustring \<Rightarrow> int" where
  "re_count_quoted skip [] = 0"
| "re_count_quoted skip (c # cs) =
     (if 0 < skip then re_count_quoted (skip - 1) cs
      else if c = 171 \<and> 187 \<in> set cs
      then 1 + re_count_quoted (length (takeWhile (\<lambda>x. x \<noteq> 187) cs) + 1) cs
      else re_count_quoted 0 cs)"

text \<open>
  \<open>re.findall\<close> of the line-dash pattern with \<open>re.MULTILINE\<close>: at the start of the text and
  after every line feed, white space (line feeds included) followed by an em dash
  (U+2014) is one match.
\<close>

fun re_count_line_dash :: "nat \<Rightarrow> bool \<Rightarrow> ustring \<Rightarrow> int" where
  "re_count_line_dash skip at_line_start [] = 0"
| "re_count_line_dash skip at_line_start (c # cs) =
     (if 0 < skip then re_count_line_dash (skip - 1) (c = 10) cs
      else if at_line_start \<and>
              (case dropWhile py_isspace (c # cs) of [] \<Rightarrow> False | d # _ \<Rightarrow> d = 8212)
      then 1 + re_count_line_dash (length (takeWhile py_isspace (c # cs))) (c = 10) cs
      else re_count_line_dash 0 (c = 10) cs)"

definition MM_count_dialogue_markers :: "ustring \<Rightarrow> int" where
  "MM_count_dialogue_markers text = re_count_quoted 0 text + re_count_line_dash 0 True text"

text \<open>
  The set comprehension of \<open>unique_lemmas\<close>, as the list of its elements before
  duplicates are removed: words without a candidate are left out.
\<close>

fun MM_lemmas :: "morph \<Rightarrow> ustring list \<Rightarrow> pyerror + ustring list" where
  "MM_lemmas M [] = Inr []"
| "MM_lemmas M (w # ws) =
     (case M w of
        Inl e \<Rightarrow> Inl e
      | Inr parsed \<Rightarrow>
          (case MM_lemmas M ws of
             Inl e \<Rightarrow> Inl e
           | Inr ls \<Rightarrow> Inr (case parsed of [] \<Rightarrow> ls | c # _ \<Rightarrow> normal_form c # ls)))"

text \<open>
  The result mapping has the same seventeen keys on every path. The four ratios are the
  int \<open>0\<close> in the empty result and floats otherwise.
\<close>

record morpho_result =
  nouns :: int
  verbs :: int
  adjectives :: int
  pronouns :: int
  adverbs :: int
  prepositions :: int
  conjunctions :: int
  particles :: int
  interjections :: int
  noun_ratio :: pyval
  verb_ratio :: pyval
  adj_ratio :: pyval
  verb_perfective_ratio :: pyval
  diminutive_noun_count :: int
  dialogue_markers :: int
  total_words :: int
  unique_lemmas :: int

definition MM_empty_result :: morpho_result where
  "MM_empty_result =
     \<lparr>nouns = 0, verbs = 0, adjectives = 0, pronouns = 0, adverbs = 0, prepositions = 0,
      conjunctions = 0, particles = 0, interjections = 0,
      noun_ratio = PInt 0, verb_ratio = PInt 0, adj_ratio = PInt 0,
      verb_perfective_ratio = PInt 0, diminutive_noun_count = 0, dialogue_markers = 0,
      total_words = 0, unique_lemmas = 0\<rparr>"

text \<open>\<open>Counter(pos_list)[tag]\<close>.\<close>

definition pos_counter :: "string list \<Rightarrow> string \<Rightarrow> int" where
  "pos_counter pos_list tag = int (count_list pos_list tag)"

text \<open>
  \<open>compute\<close>. The four \<open>*_like\<close> sums are computed and not used, as in the source. The
  entries of the dict display are evaluated in order, so the first exception among the
  perfective ratio, the diminutive count and the lemma set is the one raised.
\<close>

definition MM_compute ::
  "(nat \<Rightarrow> bool) \<Rightarrow> (ustring \<Rightarrow> ustring) \<Rightarrow> morph \<Rightarrow> MorphoMetrics \<Rightarrow> ustring
     \<Rightarrow> (pyerror + morpho_result) \<times> MorphoMetrics" where
  "MM_compute W L M self text =
     (let words = MM_extract_words W L text
      in if words = [] then (Inr MM_empty_result, self)
         else
           (case MM_pos_list M self words of
              (Inl e, self') \<Rightarrow> (Inl e, self')
            | (Inr pos_list, self') \<Rightarrow>
                (let noun_like = pos_counter pos_list ''NOUN'' + pos_counter pos_list ''NPRO'';
                     verb_like = pos_counter pos_list ''VERB'' + pos_counter pos_list ''INFN''
                                 + pos_counter pos_list ''GRND'';
                     adj_like = pos_counter pos_list ''ADJF'' + pos_counter pos_list ''PRTF''
                                + pos_counter pos_list ''NUMR'';
                     adv_like = pos_counter pos_list ''ADVB'';
                     pronouns' = pos_counter pos_list ''NPRO'' + pos_counter pos_list ''ADJPRO''
                                 + pos_counter pos_list ''PRTFPRO'';
                     total = len words
                 in (case MM_compute_perfective_verb_ratio M words of
                       Inl e \<Rightarrow> (Inl e, self')
                     | Inr perfective_ratio \<Rightarrow>
                         (case MM_count_diminutives M words of
                            Inl e \<Rightarrow> (Inl e, self')
                          | Inr diminutives \<Rightarrow>
                              (case MM_lemmas M words of
                                 Inl e \<Rightarrow> (Inl e, self')
                               | Inr lemmas \<Rightarrow>
                                   (Inr \<lparr>nouns = pos_counter pos_list ''NOUN'',
                                         verbs = pos_counter pos_list ''VERB'',
                                         adjectives = pos_counter pos_list ''ADJF'',
                                         pronouns = pronouns',
                                         adverbs = pos_counter pos_list ''ADVB'',
                                         prepositions = pos_counter pos_list ''PREP'',
                                         conjunctions = pos_counter pos_list ''CONJ'',
                                         particles = pos_counter pos_list ''PRCL'',
                                         interjections = pos_counter pos_list ''INTJ'',
                                         noun_ratio =
                                           (if total \<noteq> 0
                                            then PFloat (py_round 3 (of_int (pos_counter pos_list ''NOUN'') / of_int total))
                                            else PFloat 0),
                                         verb_ratio =
                                           (if total \<noteq> 0
                                            then PFloat (py_round 3 (of_int (pos_counter pos_list ''VERB'') / of_int total))
                                            else PFloat 0),
                                         adj_ratio =
                                           (if total \<noteq> 0
                                            then PFloat (py_round 3 (of_int (pos_counter pos_list ''ADJF'') / of_int total))
                                            else PFloat 0),
                                         verb_perfective_ratio = perfective_ratio,
                                         diminutive_noun_count = diminutives,
                                         dialogue_markers = MM_count_dialogue_markers text,
                                         total_words = total,
                                         unique_lemmas = len (remdups lemmas)\<rparr>,
                                    self')))))))"

text \<open>
  A sequence of lookups, and a sequence of \<open>compute\<close> calls, on one instance: each call
  starts from the state the previous one left, whether it returned or raised.
\<close>

definition MM_lookups :: "morph \<Rightarrow> MorphoMetrics \<Rightarrow> ustring list \<Rightarrow> MorphoMetrics" where
  "MM_lookups M self ws = foldl (\<lambda>s w. snd (MM_get_pos M s w)) self ws"

definition MM_calls ::
  "(nat \<Rightarrow> bool) \<Rightarrow> (ustring \<Rightarrow> ustring) \<Rightarrow> morph \<Rightarrow> MorphoMetrics \<Rightarrow> ustring list \<Rightarrow> MorphoMetrics" where
  "MM_calls W L M self texts = foldl (\<lambda>s t. snd (MM_compute W L M s t)) self texts"

text \<open>
  The tag \<open>_get_pos\<close> derives from a parse result, and the invariant of the cache: every
  entry holds the tag that \<open>parse\<close> gives for its word.
\<close>

definition MM_top_pos :: "candidate list \<Rightarrow> string" where
  "MM_top_pos parsed =
     (case parsed of
        [] \<Rightarrow> ''UNKNOWN''
      | c # _ \<Rightarrow> (case POS c of None \<Rightarrow> ''UNKNOWN'' | Some t \<Rightarrow> if t = [] then ''UNKNOWN'' else t))"

definition MM_cache_ok :: "morph \<Rightarrow> MorphoMetrics \<Rightarrow> bool" where
  "MM_cache_ok M self \<longleftrightarrow>
     list_all (\<lambda>(w, t). case M w of Inl e \<Rightarrow> False | Inr parsed \<Rightarrow> t = MM_top_pos parsed)
       (cache self)"

text \<open>
  A word on which \<open>compute\<close> cannot fail: \<open>parse\<close> returns, and a top candidate tagged
  VERB or INFN carries an aspect.
\<close>

definition MM_parse_ok :: "morph \<Rightarrow> ustring \<Rightarrow> bool" where
  "MM_parse_ok M w =
     (case M w of
        Inl e \<Rightarrow> False
      | Inr [] \<Rightarrow> True
      | Inr (c # _) \<Rightarrow>
          (if POS c = Some ''VERB'' \<or> POS c = Some ''INFN'' then aspect c \<noteq> None else True))"

text \<open>
  Three collaborators for concrete runs: one whose \<open>parse\<close> always raises, one that never
  finds a candidate, and one that tags every word as a pronoun-noun (NPRO).
\<close>

definition M_raising :: morph where
  "M_raising w = Inl ParseFailure"

definition M_none :: morph where
  "M_none w = Inr []"

definition M_pronoun :: morph where
  "M_pronoun w = Inr [\<lparr>POS = Some ''NPRO'', normal_form = w, aspect = None\<rparr>]"

text \<open>The pronoun U+043E U+043D, and a second word.\<close>

definition text_on :: ustring where
  "text_on = [1086, 1085]"

definition text_ona :: ustring where
  "text_ona = [1086, 1085, 1072]"

text \<open>
  Texts for the confidence rule: one sentence of two words, one sentence of five words,
  two sentences of four words; and a text with words of 4, 5, 6 and 1 syllables.
\<close>

definition text_one_short :: ustring where
  "text_one_short = [1050, 1086, 1090, 32, 1089, 1087, 1080, 1090]"

definition text_one_long :: ustring where
  "text_one_long =
     [1057, 1086, 1073, 1072, 1082, 1072, 32, 1073, 1077, 1078, 1080, 1090, 32, 1073, 1099,
      1089, 1090, 1088, 1086, 32, 1082, 1086, 1090, 32, 1089, 1087, 1080, 1090]"

definition text_two_short :: ustring where
  "text_two_short =
     [1050, 1086, 1090, 32, 1089, 1087, 1080, 1090, 46, 32, 1057, 1086, 1073, 1072, 1082,
      1072, 32, 1073, 1077, 1078, 1080, 1090, 33]"

definition text_long_words :: ustring where
  "text_long_words =
     [1072, 1072, 1072, 1072, 32, 1072, 1072, 1072, 1072, 1072, 32,
      1072, 1072, 1072, 1072, 1072, 1072, 32, 1076, 1072]"

text \<open>Twelve one-word sentences: six times a three-syllable word, six times a one-syllable word.\<close>

definition text_twelve :: ustring where
  "text_twelve =
     [1084, 1086, 1083, 1086, 1082, 1086, 46, 32, 1084, 1086, 1083, 1086, 1082, 1086, 46, 32,
      1084, 1086, 1083, 1086, 1082, 1086, 46, 32, 1084, 1086, 1083, 1086, 1082, 1086, 46, 32,
      1084, 1086, 1083, 1086, 1082, 1086, 46, 32, 1084, 1086, 1083, 1086, 1082, 1086, 46, 32,
      1076, 1072, 46, 32, 1076, 1072, 46, 32, 1076, 1072, 46, 32, 1076, 1072, 46, 32,
      1076, 1072, 46, 32, 1076, 1072, 46]"

section \<open>Verified properties\<close>

lemmas key_defs = k_avg_sentence_length_def k_avg_word_syllables_def k_avg_word_letters_def
  k_sentence_count_def k_word_count_def k_char_count_def k_confidence_hint_def
  k_ru_avg_sentence_length_def k_ru_avg_word_syllables_def k_ru_avg_word_letters_def
  k_word_forms_total_def k_unique_words_def k_ru_unique_words_def k_monosyllabic_words_def
  k_disyllabic_words_def k_trisyllabic_words_def k_polysyllabic_words_def
  k_word_syllable_distribution_def k_lexical_diversity_def asc_def

subsection \<open>Rounding\<close>

lemma round_half_even_ge: "of_int m \<le> y \<Longrightarrow> m \<le> round_half_even y"
  unfolding round_half_even_def Let_def
  by (auto simp: le_floor_iff intro: order_trans [of m "\<lfloor>y\<rfloor>" "\<lfloor>y\<rfloor> + 1"])

lemma round_half_even_le: "y \<le> of_int m \<Longrightarrow> round_half_even y \<le> m"
  unfolding round_half_even_def Let_def
  by (auto; linarith)

lemma round_half_even_of_int: "round_half_even (of_int k) = k"
  by (simp add: round_half_even_def)

lemma py_round_lower: "of_int a / 10 ^ nd \<le> x \<Longrightarrow> of_int a / 10 ^ nd \<le> py_round nd x"
proof -
  assume "of_int a / 10 ^ nd \<le> x"
  then have "of_int a \<le> x * 10 ^ nd" by (simp add: pos_divide_le_eq)
  then have "a \<le> round_half_even (x * 10 ^ nd)" by (rule round_half_even_ge)
  then have "(of_int a :: real) \<le> of_int (round_half_even (x * 10 ^ nd))" by simp
  then show ?thesis unfolding py_round_def by (simp add: divide_right_mono)
qed

lemma py_round_upper: "x \<le> of_int b / 10 ^ nd \<Longrightarrow> py_round nd x \<le> of_int b / 10 ^ nd"
proof -
  assume "x \<le> of_int b / 10 ^ nd"
  then have "x * 10 ^ nd \<le> of_int b" by (simp add: pos_le_divide_eq)
  then have "round_half_even (x * 10 ^ nd) \<le> b" by (rule round_half_even_le)
  then have "(of_int (round_half_even (x * 10 ^ nd)) :: real) \<le> of_int b" by simp
  then show ?thesis unfolding py_round_def by (simp add: divide_right_mono)
qed

lemma py_round_idem: "py_round nd (py_round nd x) = py_round nd x"
  by (simp add: py_round_def round_half_even_of_int)

lemma py_round1_range:
  assumes "of_int a \<le> x" and "x \<le> of_int b"
  shows "of_int a \<le> py_round 1 x \<and> py_round 1 x \<le> of_int b"
  using py_round_lower [of "a * 10" 1 x] py_round_upper [of x "b * 10" 1] assms by simp

lemma py_round_confidence:
  "py_round 2 1 = 1" "py_round 2 (1 / 2) = 1 / 2" "py_round 2 (3 / 10) = 3 / 10"
  by (simp_all add: py_round_def round_half_even_def)

subsection \<open>The scenario text\<close>

lemma text_kot_not_blank: "\<not> blank text_kot"
  by (simp add: blank_def text_kot_def strip_def py_isspace_def)

lemma text_kot_pieces:
  "map strip (filter (\<lambda>s. strip s \<noteq> []) (re_split text_kot)) =
     [[1050, 1086, 1090, 32, 1089, 1087, 1080, 1090],
      [1057, 1086, 1073, 1072, 1082, 1072, 32, 1073, 1077, 1078, 1080, 1090, 32,
       1073, 1099, 1089, 1090, 1088, 1086]]"
  by (simp add: text_kot_def re_split_def is_terminator_def strip_def py_isspace_def)

lemma text_kot_words:
  assumes "\<And>c. cyr_latin c \<Longrightarrow> W c" and "\<not> W 32"
  shows "concat (map (TCM_split_words W) (TCM_split_sentences text_kot)) =
     [[1050, 1086, 1090], [1089, 1087, 1080, 1090], [1057, 1086, 1073, 1072, 1082, 1072],
      [1073, 1077, 1078, 1080, 1090], [1073, 1099, 1089, 1090, 1088, 1086]]"
  using assms
  by (simp add: TCM_split_sentences_def text_kot_pieces TCM_split_words_def
      re_findall_words_def cyr_latin_def)

lemma w_latin_cyrillic_letters: "cyr_latin c \<Longrightarrow> w_latin_cyrillic c"
  by (auto simp: cyr_latin_def w_latin_cyrillic_def)

lemma w_latin_cyrillic_space: "\<not> w_latin_cyrillic 32"
  by (simp add: w_latin_cyrillic_def)

subsection \<open>The surface analyzer\<close>

lemma text_one_short_counts:
  "\<not> blank text_one_short"
  "len (TCM_split_sentences text_one_short) = 1"
  "len (concat (map (TCM_split_words w_latin_cyrillic) (TCM_split_sentences text_one_short))) = 2"
  by (simp_all add: blank_def text_one_short_def strip_def py_isspace_def TCM_split_sentences_def
      re_split_def is_terminator_def TCM_split_words_def re_findall_words_def cyr_latin_def
      w_latin_cyrillic_def Let_def len_def)

lemma text_one_long_counts:
  "\<not> blank text_one_long"
  "len (TCM_split_sentences text_one_long) = 1"
  "len (concat (map (TCM_split_words w_latin_cyrillic) (TCM_split_sentences text_one_long))) = 5"
  by (simp_all add: blank_def text_one_long_def strip_def py_isspace_def TCM_split_sentences_def
      re_split_def is_terminator_def TCM_split_words_def re_findall_words_def cyr_latin_def
      w_latin_cyrillic_def Let_def len_def)

lemma text_two_short_counts:
  "\<not> blank text_two_short"
  "len (TCM_split_sentences text_two_short) = 2"
  "len (concat (map (TCM_split_words w_latin_cyrillic) (TCM_split_sentences text_two_short))) = 4"
  by (simp_all add: blank_def text_two_short_def strip_def py_isspace_def TCM_split_sentences_def
      re_split_def is_terminator_def TCM_split_words_def re_findall_words_def cyr_latin_def
      w_latin_cyrillic_def Let_def len_def)

lemma text_kot_counts:
  "len (TCM_split_sentences text_kot) = 2"
  "len (concat (map (TCM_split_words w_latin_cyrillic) (TCM_split_sentences text_kot))) = 5"
proof -
  show "len (TCM_split_sentences text_kot) = 2"
    by (simp add: TCM_split_sentences_def text_kot_pieces len_def)
  show "len (concat (map (TCM_split_words w_latin_cyrillic) (TCM_split_sentences text_kot))) = 5"
    using text_kot_words [of w_latin_cyrillic, OF w_latin_cyrillic_letters w_latin_cyrillic_space]
    by (simp add: len_def)
qed

text \<open>
  C5. For a non-blank text the analyzer reports the number of sentences and of words of
  the text, and the confidence hint that two checks made one after the other give on
  them: it is 1.0, is set to 0.5 when the text has fewer than 2 sentences, and is then
  set to 0.3 when it has fewer than 5 words, whatever the first check did. The examples
  after it are one sentence of two words (0.3), one sentence of five words (0.5), two
  sentences of four words (0.3) and two sentences of five words (1.0).
\<close>

theorem TCM_confidence_two_checks:
  assumes "\<not> blank text"
  shows "map_of (TCM_compute W L text) k_sentence_count
           = Some (PInt (len (TCM_split_sentences text)))
     \<and> map_of (TCM_compute W L text) k_word_count
           = Some (PInt (len (concat (map (TCM_split_words W) (TCM_split_sentences text)))))
     \<and> map_of (TCM_compute W L text) k_confidence_hint =
          Some (PFloat
            (let c0 = 1;
                 c1 = (if len (TCM_split_sentences text) < 2 then 1 / 2 else c0)
             in if len (concat (map (TCM_split_words W) (TCM_split_sentences text))) < 5
                then 3 / 10 else c1))"
  using assms by (simp add: TCM_compute_def Let_def key_defs py_round_confidence)

theorem TCM_confidence_two_checks_witness:
  "\<not> blank text_one_short \<and> \<not> blank text_one_long \<and> \<not> blank text_two_short
   \<and> \<not> blank text_kot
   \<and> map_of (TCM_compute w_latin_cyrillic lower_latin_cyrillic text_one_short) k_sentence_count
       = Some (PInt 1)
   \<and> map_of (TCM_compute w_latin_cyrillic lower_latin_cyrillic text_one_short) k_word_count
       = Some (PInt 2)
   \<and> map_of (TCM_compute w_latin_cyrillic lower_latin_cyrillic text_one_short) k_confidence_hint
       = Some (PFloat (3 / 10))
   \<and> map_of (TCM_compute w_latin_cyrillic lower_latin_cyrillic text_one_long) k_sentence_count
       = Some (PInt 1)
   \<and> map_of (TCM_compute w_latin_cyrillic lower_latin_cyrillic text_one_long) k_word_count
       = Some (PInt 5)
   \<and> map_of (TCM_compute w_latin_cyrillic lower_latin_cyrillic text_one_long) k_confidence_hint
       = Some (PFloat (1 / 2))
   \<and> map_of (TCM_compute w_latin_cyrillic lower_latin_cyrillic text_two_short) k_sentence_count
       = Some (PInt 2)
   \<and> map_of (TCM_compute w_latin_cyrillic lower_latin_cyrillic text_two_short) k_word_count
       = Some (PInt 4)
   \<and> map_of (TCM_compute w_latin_cyrillic lower_latin_cyrillic text_two_short) k_confidence_hint
       = Some (PFloat (3 / 10))
   \<and> map_of (TCM_compute w_latin_cyrillic lower_latin_cyrillic text_kot) k_confidence_hint
       = Some (PFloat 1)"
proof -
  note a = TCM_confidence_two_checks [OF text_one_short_counts(1),
      of w_latin_cyrillic lower_latin_cyrillic, unfolded text_one_short_counts]
  note b = TCM_confidence_two_checks [OF text_one_long_counts(1),
      of w_latin_cyrillic lower_latin_cyrillic, unfolded text_one_long_counts]
  note c = TCM_confidence_two_checks [OF text_two_short_counts(1),
      of w_latin_cyrillic lower_latin_cyrillic, unfolded text_two_short_counts]
  note d = TCM_confidence_two_checks [OF text_kot_not_blank,
      of w_latin_cyrillic lower_latin_cyrillic, unfolded text_kot_counts]
  show ?thesis
    using a b c d text_one_short_counts(1) text_one_long_counts(1) text_two_short_counts(1)
      text_kot_not_blank
    by simp
qed

text \<open>
  C6, as the spec states it, fails: on the scenario text the analyzer does not report the
  confidence hint 0.3.
\<close>

theorem TCM_scenario_confidence_counterexample:
  "map_of (TCM_compute w_latin_cyrillic lower_latin_cyrillic text_kot) k_confidence_hint
     \<noteq> Some (PFloat (3 / 10))"
  by (simp add: TCM_compute_def Let_def key_defs py_round_confidence text_kot_not_blank
      text_kot_words [of w_latin_cyrillic, OF w_latin_cyrillic_letters w_latin_cyrillic_space] len_def)

text \<open>
  C6, amended. On the scenario text, with any table \<open>\w\<close> that holds the letters of the
  word pattern and not the space, the analyzer reports 2 sentences, 5 words and the
  confidence hint 1.0: five words are not fewer than five.
\<close>

theorem TCM_scenario:
  assumes "\<And>c. cyr_latin c \<Longrightarrow> W c" and "\<not> W 32"
  shows "map_of (TCM_compute W L text_kot) k_sentence_count = Some (PInt 2)
     \<and> map_of (TCM_compute W L text_kot) k_word_count = Some (PInt 5)
     \<and> map_of (TCM_compute W L text_kot) k_confidence_hint = Some (PFloat 1)"
  by (simp add: TCM_compute_def Let_def key_defs py_round_confidence text_kot_not_blank
      text_kot_words [of W, OF assms] len_def)
    (simp add: TCM_split_sentences_def text_kot_pieces)

theorem TCM_scenario_witness:
  "w_latin_cyrillic 1050 \<and> \<not> w_latin_cyrillic 32
   \<and> map_of (TCM_compute w_latin_cyrillic lower_latin_cyrillic text_kot) k_sentence_count
       = Some (PInt 2)
   \<and> map_of (TCM_compute w_latin_cyrillic lower_latin_cyrillic text_kot) k_word_count
       = Some (PInt 5)
   \<and> map_of (TCM_compute w_latin_cyrillic lower_latin_cyrillic text_kot) k_confidence_hint
       = Some (PFloat 1)"
  using TCM_scenario [of w_latin_cyrillic lower_latin_cyrillic,
      OF w_latin_cyrillic_letters w_latin_cyrillic_space]
    w_latin_cyrillic_space
  by (simp add: w_latin_cyrillic_def)

text \<open>
  C10. The class TextComplexityMetrics of textComplexityMetrics.py and the class of the
  same name in ReadabilityIndexCalculator.py return the same mapping for every text: the
  same keys in the same order with the same values.
\<close>

theorem TCM_duplicate_equal:
  "RIC_TCM_compute W L text = TCM_compute W L text"
proof -
  have sentences: "RIC_TCM_split_sentences = TCM_split_sentences"
    by (rule ext) (simp add: RIC_TCM_split_sentences_def TCM_split_sentences_def)
  have words: "RIC_TCM_split_words = TCM_split_words"
    by (intro ext) (simp add: RIC_TCM_split_words_def TCM_split_words_def)
  have syllables: "RIC_TCM_count_syllables_ru = TCM_count_syllables_ru"
    by (intro ext) (simp add: RIC_TCM_count_syllables_ru_def TCM_count_syllables_ru_def)
  show ?thesis
    unfolding RIC_TCM_compute_def TCM_compute_def sentences words syllables by (rule refl)
qed

subsection \<open>The descriptive analyzer\<close>

lemma dict_set_sum:
  "sum_list (map snd (dict_set d k (dict_get d k 0 + 1))) = sum_list (map snd d) + (1::int)"
  by (induction d) (auto simp: dict_set_def dict_get_def)

lemma dict_set_keys: "distinct (map fst d) \<Longrightarrow> distinct (map fst (dict_set d k v))"
  by (simp add: dict_set_def distinct_update)

lemma DTM_distribution_sum:
  "sum_list (map snd (DTM_distribution d scs)) = sum_list (map snd d) + len scs"
  by (induction scs arbitrary: d) (simp_all add: dict_set_sum len_def)

lemma DTM_distribution_keys:
  "distinct (map fst d) \<Longrightarrow> distinct (map fst (DTM_distribution d scs))"
  by (induction scs arbitrary: d) (simp_all add: dict_set_keys)

lemma dict_set_get:
  "dict_get (dict_set d k v) k' dflt = (if k' = k then v else dict_get d k' dflt)"
  by (simp add: dict_set_def dict_get_def update_conv')

lemma DTM_distribution_get:
  "dict_get (DTM_distribution d scs) k 0 = dict_get d k 0 + len (filter (\<lambda>sc. sc = k) scs)"
  by (induction scs arbitrary: d) (simp_all add: dict_set_get len_def)

lemma dict_set_bucket:
  "sum_list (map snd (filter (\<lambda>(k, v). P k) (dict_set d k (dict_get d k 0 + 1))))
     = sum_list (map snd (filter (\<lambda>(k, v). P k) d)) + (if P k then 1 else (0::int))"
  by (induction d) (auto simp: dict_set_def dict_get_def)

lemma DTM_distribution_bucket:
  "sum_list (map snd (filter (\<lambda>(k, v). P k) (DTM_distribution d scs)))
     = sum_list (map snd (filter (\<lambda>(k, v). P k) d)) + len (filter P scs)"
  by (induction scs arbitrary: d) (simp_all add: dict_set_bucket len_def)

lemma len_filter_map: "len (filter P (map f xs)) = len (filter (\<lambda>x. P (f x)) xs)"
  by (simp add: len_def filter_map comp_def)

lemma text_long_words_not_blank: "\<not> blank text_long_words"
  by (simp add: blank_def text_long_words_def strip_def py_isspace_def)

lemma text_long_words_words:
  "DTM_extract_words w_latin_cyrillic lower_latin_cyrillic text_long_words =
     [[1072, 1072, 1072, 1072], [1072, 1072, 1072, 1072, 1072],
      [1072, 1072, 1072, 1072, 1072, 1072], [1076, 1072]]"
  by (simp add: DTM_extract_words_def lower_latin_cyrillic_def lower_cp_def text_long_words_def
      re_findall_words_def cyr_lower_def w_latin_cyrillic_def Let_def)

text \<open>
  C4. For every text, \<open>word_forms_total\<close> is the number of word forms extracted from the
  text (none for a blank text), and the values of the returned syllable distribution sum
  to it. The distribution has one entry per syllable count, and the entry of a count
  \<open>k\<close> is the number of words with exactly \<open>k\<close> syllables, also for \<open>k\<close> of four and
  more: these entries are not merged. \<open>polysyllabic_words\<close> is the sum of the entries
  with four or more syllables, the number of such words. The example after it has words of 4,
  5, 6 and 1 syllables: four entries, a bucket of 3.
\<close>

theorem DTM_distribution_sums_to_total:
  "\<exists>d. map_of (DTM_compute W L text) k_word_forms_total
          = Some (PInt (len (if blank text then [] else DTM_extract_words W L text)))
     \<and> map_of (DTM_compute W L text) k_word_syllable_distribution = Some (PDict d)
     \<and> sum_list (map snd d) = len (if blank text then [] else DTM_extract_words W L text)
     \<and> distinct (map fst d)
     \<and> (\<forall>k. dict_get d k 0 =
               len (filter (\<lambda>w. DTM_count_syllables_ru w = k)
                      (if blank text then [] else DTM_extract_words W L text)))
     \<and> map_of (DTM_compute W L text) k_polysyllabic_words
          = Some (PInt (sum_list (map snd (filter (\<lambda>(k, v). 4 \<le> k) d))))
     \<and> sum_list (map snd (filter (\<lambda>(k, v). 4 \<le> k) d))
          = len (filter (\<lambda>w. 4 \<le> DTM_count_syllables_ru w)
                   (if blank text then [] else DTM_extract_words W L text))"
proof (cases "blank text")
  case True
  then show ?thesis
    by (simp add: DTM_compute_def key_defs dict_get_def len_def)
next
  case False
  let ?ws = "DTM_extract_words W L text"
  let ?d = "DTM_distribution [] (map DTM_count_syllables_ru ?ws)"
  have total: "map_of (DTM_compute W L text) k_word_forms_total = Some (PInt (len ?ws))"
    using False by (simp add: DTM_compute_def Let_def key_defs)
  have dist: "map_of (DTM_compute W L text) k_word_syllable_distribution = Some (PDict ?d)"
    using False by (simp add: DTM_compute_def Let_def key_defs)
  have poly: "map_of (DTM_compute W L text) k_polysyllabic_words
                = Some (PInt (sum_list (map snd (filter (\<lambda>(k, v). 4 \<le> k) ?d))))"
    using False by (simp add: DTM_compute_def Let_def key_defs)
  have sum: "sum_list (map snd ?d) = len ?ws"
    by (simp add: DTM_distribution_sum len_def)
  have keys: "distinct (map fst ?d)" by (simp add: DTM_distribution_keys)
  have each: "dict_get ?d k 0 = len (filter (\<lambda>w. DTM_count_syllables_ru w = k) ?ws)" for k
    by (simp add: DTM_distribution_get len_filter_map) (simp add: dict_get_def)
  have bucket: "sum_list (map snd (filter (\<lambda>(k, v). 4 \<le> k) ?d))
                  = len (filter (\<lambda>w. 4 \<le> DTM_count_syllables_ru w) ?ws)"
    by (simp add: DTM_distribution_bucket len_filter_map)
  from False total dist poly sum keys each bucket show ?thesis by auto
qed

theorem DTM_distribution_sums_to_total_witness:
  "map_of (DTM_compute w_latin_cyrillic lower_latin_cyrillic text_long_words) k_word_forms_total
     = Some (PInt 4)
   \<and> map_of (DTM_compute w_latin_cyrillic lower_latin_cyrillic text_long_words)
        k_word_syllable_distribution = Some (PDict [(4, 1), (5, 1), (6, 1), (1, 1)])
   \<and> map_of (DTM_compute w_latin_cyrillic lower_latin_cyrillic text_long_words)
        k_polysyllabic_words = Some (PInt 3)"
proof -
  let ?c = "DTM_compute w_latin_cyrillic lower_latin_cyrillic text_long_words"
  have d: "map_of ?c k_word_syllable_distribution = Some (PDict [(4, 1), (5, 1), (6, 1), (1, 1)])"
    by (simp add: DTM_compute_def Let_def key_defs text_long_words_not_blank
        text_long_words_words DTM_count_syllables_ru_def vowels_def len_def dict_set_def
        dict_get_def)
  from DTM_distribution_sums_to_total [of w_latin_cyrillic lower_latin_cyrillic text_long_words]
  obtain d' where
    t: "map_of ?c k_word_forms_total
          = Some (PInt (len (if blank text_long_words then []
                             else DTM_extract_words w_latin_cyrillic lower_latin_cyrillic
                                    text_long_words)))"
    and d': "map_of ?c k_word_syllable_distribution = Some (PDict d')"
    and p: "map_of ?c k_polysyllabic_words
              = Some (PInt (sum_list (map snd (filter (\<lambda>(k, v). 4 \<le> k) d'))))"
    by blast
  from d d' have "d' = [(4, 1), (5, 1), (6, 1), (1, 1)]" by simp
  with t p d show ?thesis
    by (simp add: text_long_words_not_blank text_long_words_words len_def)
qed

subsection \<open>The readability indices\<close>

lemma text_kot_lower: "lower_latin_cyrillic text_kot =
  [1082, 1086, 1090, 32, 1089, 1087, 1080, 1090, 46, 32, 1089, 1086, 1073, 1072, 1082,
      1072, 32, 1073, 1077, 1078, 1080, 1090, 32, 1073, 1099, 1089, 1090, 1088, 1086, 33]"
  by (simp add: lower_latin_cyrillic_def text_kot_def lower_cp_def)

lemma text_kot_cyr_words:
  "re_findall_words w_latin_cyrillic cyr_lower True (lower_latin_cyrillic text_kot) =
     [[1082, 1086, 1090], [1089, 1087, 1080, 1090], [1089, 1086, 1073, 1072, 1082, 1072],
      [1073, 1077, 1078, 1080, 1090], [1073, 1099, 1089, 1090, 1088, 1086]]"
  by (simp add: text_kot_lower re_findall_words_def cyr_lower_def w_latin_cyrillic_def)

lemma text_twelve_not_blank: "\<not> blank text_twelve"
  by (simp add: blank_def text_twelve_def strip_def py_isspace_def)

lemma text_twelve_sentences: "RIC_split_sentences text_twelve =
  [[1084, 1086, 1083, 1086, 1082, 1086], [1084, 1086, 1083, 1086, 1082, 1086],
   [1084, 1086, 1083, 1086, 1082, 1086], [1084, 1086, 1083, 1086, 1082, 1086],
   [1084, 1086, 1083, 1086, 1082, 1086], [1084, 1086, 1083, 1086, 1082, 1086],
   [1076, 1072], [1076, 1072], [1076, 1072], [1076, 1072], [1076, 1072], [1076, 1072]]"
  by (simp add: RIC_split_sentences_def text_twelve_def re_split_def is_terminator_def strip_def py_isspace_def)

lemma text_twelve_lower: "lower_latin_cyrillic text_twelve = text_twelve"
  by (simp add: lower_latin_cyrillic_def text_twelve_def lower_cp_def)

lemma text_twelve_words: "RIC_extract_words w_latin_cyrillic lower_latin_cyrillic text_twelve =
  [[1084, 1086, 1083, 1086, 1082, 1086], [1084, 1086, 1083, 1086, 1082, 1086],
   [1084, 1086, 1083, 1086, 1082, 1086], [1084, 1086, 1083, 1086, 1082, 1086],
   [1084, 1086, 1083, 1086, 1082, 1086], [1084, 1086, 1083, 1086, 1082, 1086],
   [1076, 1072], [1076, 1072], [1076, 1072], [1076, 1072], [1076, 1072], [1076, 1072]]"
  unfolding RIC_extract_words_def text_twelve_lower
  by (simp add: text_twelve_def re_findall_words_def cyr_lower_def w_latin_cyrillic_def Let_def)

lemma sqrt15: "3.86 < sqrt 15" "sqrt 15 < 3.9"
proof -
  have "sqrt (3.86 ^ 2) < sqrt 15" by (subst real_sqrt_less_iff) (simp add: power2_eq_square)
  then show "3.86 < sqrt 15" by simp
  have "sqrt 15 < sqrt (3.9 ^ 2)" by (subst real_sqrt_less_iff) (simp add: power2_eq_square)
  then show "sqrt 15 < 3.9" by simp
qed

lemma smog_twelve: "py_round 1 (1.043 * sqrt 15 + 3.1291) = 7.2"
proof -
  let ?y = "(1.043 * sqrt 15 + 3.1291) * 10 ^ 1"
  have lo: "71.5 < ?y" using sqrt15(1) by simp
  have hi: "?y < 72" using sqrt15(2) by simp
  have fl: "\<lfloor>?y\<rfloor> = 71" using lo hi by (intro floor_unique) simp_all
  have "round_half_even ?y = 72"
    unfolding round_half_even_def Let_def fl using lo by simp
  then show ?thesis unfolding py_round_def by simp
qed

text \<open>
  C2. For a non-blank text with at least one sentence and one word, the reported Flesch
  index lies in [0, 100], the reported simple level in [1, 5] and the reported school
  grade in [1, 12]: each is clamped and then rounded to one decimal, and rounding does
  not leave an interval whose ends have one decimal.
\<close>

theorem RIC_clamps:
  assumes "\<not> blank text" and "RIC_split_sentences text \<noteq> []"
    and "RIC_extract_words W L text \<noteq> []"
  shows "0 \<le> flesch_reading_ease (RIC_compute W L text)
     \<and> flesch_reading_ease (RIC_compute W L text) \<le> 100
     \<and> 1 \<le> simple_level (RIC_compute W L text)
     \<and> simple_level (RIC_compute W L text) \<le> 5
     \<and> 1 \<le> school_grade (RIC_compute W L text)
     \<and> school_grade (RIC_compute W L text) \<le> 12"
proof -
  have r: "\<And>a b x. of_int a \<le> x \<Longrightarrow> x \<le> of_int b \<Longrightarrow> of_int a \<le> py_round 1 x \<and> py_round 1 x \<le> of_int b"
    by (rule py_round1_range)
  have f: "0 \<le> py_round 1 (max 0 (min 100 x)) \<and> py_round 1 (max 0 (min 100 x)) \<le> 100" for x :: real
    using r [of 0 "max 0 (min 100 x)" 100] by simp
  have s: "1 \<le> py_round 1 (min 5 (max 1 x)) \<and> py_round 1 (min 5 (max 1 x)) \<le> 5" for x :: real
    using r [of 1 "min 5 (max 1 x)" 5] by simp
  have g: "1 \<le> py_round 1 (max 1 (min 12 x)) \<and> py_round 1 (max 1 (min 12 x)) \<le> 12" for x :: real
    using r [of 1 "max 1 (min 12 x)" 12] by simp
  have n: "\<not> (len (RIC_extract_words W L text) = 0 \<or> len (RIC_split_sentences text) = 0)"
    using assms by (simp add: len_def)
  show ?thesis
    unfolding RIC_compute_def Let_def
    by (simp only: assms n if_False readability.select_convs f s g simp_thms)
qed

theorem RIC_clamps_witness:
  "\<not> blank text_kot \<and> RIC_split_sentences text_kot \<noteq> []
   \<and> RIC_extract_words w_latin_cyrillic lower_latin_cyrillic text_kot \<noteq> []
   \<and> 0 \<le> flesch_reading_ease (RIC_compute w_latin_cyrillic lower_latin_cyrillic text_kot)
   \<and> flesch_reading_ease (RIC_compute w_latin_cyrillic lower_latin_cyrillic text_kot) \<le> 100
   \<and> 1 \<le> simple_level (RIC_compute w_latin_cyrillic lower_latin_cyrillic text_kot)
   \<and> simple_level (RIC_compute w_latin_cyrillic lower_latin_cyrillic text_kot) \<le> 5
   \<and> 1 \<le> school_grade (RIC_compute w_latin_cyrillic lower_latin_cyrillic text_kot)
   \<and> school_grade (RIC_compute w_latin_cyrillic lower_latin_cyrillic text_kot) \<le> 12"
proof -
  have a: "\<not> blank text_kot" by (rule text_kot_not_blank)
  have b: "RIC_split_sentences text_kot \<noteq> []"
    by (simp add: RIC_split_sentences_def text_kot_pieces)
  have c: "RIC_extract_words w_latin_cyrillic lower_latin_cyrillic text_kot \<noteq> []"
    by (simp add: RIC_extract_words_def text_kot_cyr_words)
  show ?thesis using RIC_clamps [OF a b c] a b c by blast
qed

text \<open>
  C3. For a non-blank text with at least one sentence and one word, the SMOG index is the
  two-branch rule on the number of sentences and the reported count of words with three
  or more syllables, reported to one decimal: from ten sentences on the square-root
  formula, below ten the linear one. The example is a text of twelve sentences with six
  such words: it reports 7.2, the square-root branch (the linear one would give 1.6).
\<close>

theorem RIC_smog_two_branches:
  assumes "\<not> blank text" and "RIC_split_sentences text \<noteq> []"
    and "RIC_extract_words W L text \<noteq> []"
  shows "polysyllabic_words_ge3 (RIC_compute W L text) =
           len (filter (\<lambda>w. 3 \<le> RIC_count_syllables_ru w) (RIC_extract_words W L text))
     \<and> smog_grade (RIC_compute W L text) =
         py_round 1
           (if 10 \<le> len (RIC_split_sentences text)
            then 1.043 * sqrt (30 * of_int (polysyllabic_words_ge3 (RIC_compute W L text))
                               / of_int (len (RIC_split_sentences text))) + 3.1291
            else 1 + 0.1 * of_int (polysyllabic_words_ge3 (RIC_compute W L text)))"
  using assms by (simp add: RIC_compute_def Let_def len_def py_round_idem filter_map comp_def)


theorem RIC_smog_two_branches_witness:
  "\<not> blank text_twelve \<and> RIC_split_sentences text_twelve \<noteq> []
   \<and> RIC_extract_words w_latin_cyrillic lower_latin_cyrillic text_twelve \<noteq> []
   \<and> len (RIC_split_sentences text_twelve) = 12
   \<and> polysyllabic_words_ge3 (RIC_compute w_latin_cyrillic lower_latin_cyrillic text_twelve) = 6
   \<and> smog_grade (RIC_compute w_latin_cyrillic lower_latin_cyrillic text_twelve) = 7.2"
proof -
  have a: "\<not> blank text_twelve" by (rule text_twelve_not_blank)
  have b: "RIC_split_sentences text_twelve \<noteq> []" by (simp add: text_twelve_sentences)
  have c: "RIC_extract_words w_latin_cyrillic lower_latin_cyrillic text_twelve \<noteq> []"
    by (simp add: text_twelve_words)
  have n: "len (RIC_split_sentences text_twelve) = 12" by (simp add: text_twelve_sentences len_def)
  have p: "len (filter (\<lambda>w. 3 \<le> RIC_count_syllables_ru w)
             (RIC_extract_words w_latin_cyrillic lower_latin_cyrillic text_twelve)) = 6"
    by (simp add: text_twelve_words RIC_count_syllables_ru_def vowels_def len_def)
  let ?r = "RIC_compute w_latin_cyrillic lower_latin_cyrillic text_twelve"
  note t = RIC_smog_two_branches [OF a b c]
  have q: "polysyllabic_words_ge3 ?r = 6" using t p by simp
  have "smog_grade ?r =
          py_round 1 (if (10::int) \<le> 12 then 1.043 * sqrt (30 * of_int 6 / of_int 12) + 3.1291
                      else 1 + 0.1 * of_int 6)"
    using t unfolding q n by blast
  also have "\<dots> = py_round 1 (1.043 * sqrt 15 + 3.1291)" by simp
  also have "\<dots> = 7.2" by (rule smog_twelve)
  finally have "polysyllabic_words_ge3 ?r = 6 \<and> smog_grade ?r = 7.2" using q by simp
  then show ?thesis using a b c n by blast
qed


subsection \<open>The classification cache\<close>

lemma MM_get_pos_cache_size [simp]: "cache_size (snd (MM_get_pos M s w)) = cache_size s"
  by (simp add: MM_get_pos_def Let_def split: option.splits sum.splits)

lemma MM_get_pos_len:
  "len (cache s) \<le> cache_size s \<Longrightarrow> len (cache (snd (MM_get_pos M s w))) \<le> cache_size s"
  by (simp add: MM_get_pos_def Let_def len_def split: option.splits sum.splits)

lemma MM_get_pos_full: "cache_size s \<le> len (cache s) \<Longrightarrow> snd (MM_get_pos M s w) = s"
  by (simp add: MM_get_pos_def Let_def split: option.splits sum.splits)

lemma MM_get_pos_keep:
  "map_of (cache s) k = Some t \<Longrightarrow> map_of (cache (snd (MM_get_pos M s w))) k = Some t"
  by (simp add: MM_get_pos_def Let_def split: option.splits sum.splits)

lemma MM_lookups_Cons: "MM_lookups M s (w # ws) = MM_lookups M (snd (MM_get_pos M s w)) ws"
  by (simp add: MM_lookups_def)

lemma MM_lookups_Nil: "MM_lookups M s [] = s"
  by (simp add: MM_lookups_def)

lemma MM_lookups_cache_size: "cache_size (MM_lookups M s ws) = cache_size s"
  by (induction ws arbitrary: s) (simp_all add: MM_lookups_Cons MM_lookups_Nil)

lemma MM_lookups_len:
  "len (cache s) \<le> cache_size s \<Longrightarrow> len (cache (MM_lookups M s ws)) \<le> cache_size s"
proof (induction ws arbitrary: s)
  case Nil
  then show ?case by (simp add: MM_lookups_Nil)
next
  case (Cons w ws)
  from Cons.prems have "len (cache (snd (MM_get_pos M s w))) \<le> cache_size (snd (MM_get_pos M s w))"
    by (simp add: MM_get_pos_len)
  from Cons.IH [OF this] show ?case by (simp add: MM_lookups_Cons)
qed

lemma MM_lookups_full: "cache_size s \<le> len (cache s) \<Longrightarrow> MM_lookups M s ws = s"
  by (induction ws) (simp_all add: MM_lookups_Cons MM_lookups_Nil MM_get_pos_full)

lemma MM_lookups_keep:
  "map_of (cache s) k = Some t \<Longrightarrow> map_of (cache (MM_lookups M s ws)) k = Some t"
  by (induction ws arbitrary: s) (simp_all add: MM_lookups_Cons MM_lookups_Nil MM_get_pos_keep)

lemma MM_compute_state:
  "snd (MM_compute W L M s text) =
     (if MM_extract_words W L text = [] then s
      else snd (MM_pos_list M s (MM_extract_words W L text)))"
  by (simp add: MM_compute_def Let_def split: sum.splits prod.splits)

lemma MM_lookups_append: "MM_lookups M (MM_lookups M s a) b = MM_lookups M s (a @ b)"
  by (simp add: MM_lookups_def)

lemma MM_pos_list_lookups: "\<exists>k. snd (MM_pos_list M s ws) = MM_lookups M s (take k ws)"
proof (induction ws arbitrary: s)
  case Nil
  then show ?case by (simp add: MM_lookups_Nil)
next
  case (Cons w ws)
  obtain k where k: "snd (MM_pos_list M (snd (MM_get_pos M s w)) ws)
                       = MM_lookups M (snd (MM_get_pos M s w)) (take k ws)"
    using Cons.IH by blast
  show ?case
  proof (cases "fst (MM_get_pos M s w)")
    case (Inl e)
    then have "snd (MM_pos_list M s (w # ws)) = MM_lookups M s (take 1 (w # ws))"
      by (cases "MM_get_pos M s w") (simp add: MM_lookups_Cons MM_lookups_Nil)
    then show ?thesis by blast
  next
    case (Inr t)
    then have "snd (MM_pos_list M s (w # ws)) = MM_lookups M s (take (Suc k) (w # ws))"
      using k
      by (cases "MM_get_pos M s w"; cases "MM_pos_list M (snd (MM_get_pos M s w)) ws")
         (auto simp: MM_lookups_Cons split: sum.splits)
    then show ?thesis by blast
  qed
qed

lemma MM_compute_lookups: "\<exists>ws. snd (MM_compute W L M s text) = MM_lookups M s ws"
proof (cases "MM_extract_words W L text = []")
  case True
  then have "snd (MM_compute W L M s text) = MM_lookups M s []"
    by (simp add: MM_compute_state MM_lookups_Nil)
  then show ?thesis by blast
next
  case False
  then show ?thesis using MM_pos_list_lookups [of M s] by (auto simp: MM_compute_state)
qed

lemma MM_calls_lookups: "\<exists>ws. MM_calls W L M s texts = MM_lookups M s ws"
proof (induction texts arbitrary: s)
  case Nil
  have "MM_calls W L M s [] = MM_lookups M s []" by (simp add: MM_calls_def MM_lookups_Nil)
  then show ?case by blast
next
  case (Cons t ts)
  obtain a where a: "snd (MM_compute W L M s t) = MM_lookups M s a"
    using MM_compute_lookups by blast
  obtain b where b: "MM_calls W L M (MM_lookups M s a) ts = MM_lookups M (MM_lookups M s a) b"
    using Cons.IH by blast
  have "MM_calls W L M s (t # ts) = MM_lookups M s (a @ b)"
    using a b by (simp add: MM_calls_def MM_lookups_append)
  then show ?case by blast
qed

text \<open>
  C7. On an instance created with a capacity \<open>c \<ge> 0\<close>, after any sequence of lookups the
  cache holds at most \<open>c\<close> entries; once it holds \<open>c\<close> entries no later lookup changes the
  instance; and an entry that is in the cache is still there, with the same tag, after
  any later lookups. The calls of \<open>compute\<close> reach the cache through lookups only, so
  the bound also holds after any sequence of \<open>compute\<close> calls.
\<close>

theorem MM_cache_bounded:
  assumes "0 \<le> c"
  shows "len (cache (MM_lookups M (MM_init c) ws)) \<le> c
     \<and> (len (cache (MM_lookups M (MM_init c) ws)) = c \<longrightarrow>
          MM_lookups M (MM_lookups M (MM_init c) ws) ws' = MM_lookups M (MM_init c) ws)
     \<and> (map_of (cache (MM_lookups M (MM_init c) ws)) w = Some t \<longrightarrow>
          map_of (cache (MM_lookups M (MM_lookups M (MM_init c) ws) ws')) w = Some t)
     \<and> len (cache (MM_calls W L M (MM_init c) texts)) \<le> c"
proof -
  let ?s = "MM_lookups M (MM_init c) ws"
  have size: "cache_size ?s = c" by (simp add: MM_lookups_cache_size MM_init_def)
  have init: "len (cache (MM_init c)) \<le> cache_size (MM_init c)"
    using assms by (simp add: MM_init_def len_def)
  have any: "len (cache (MM_lookups M (MM_init c) xs)) \<le> c" for xs
    using MM_lookups_len [OF init, of M xs] by (simp add: MM_init_def)
  have bound: "len (cache ?s) \<le> c" by (rule any)
  obtain xs where "MM_calls W L M (MM_init c) texts = MM_lookups M (MM_init c) xs"
    using MM_calls_lookups by blast
  then have calls: "len (cache (MM_calls W L M (MM_init c) texts)) \<le> c" by (simp add: any)
  have full: "len (cache ?s) = c \<longrightarrow> MM_lookups M ?s ws' = ?s"
    using MM_lookups_full [of ?s M ws'] size by simp
  have keep: "map_of (cache ?s) w = Some t \<longrightarrow> map_of (cache (MM_lookups M ?s ws')) w = Some t"
    by (simp add: MM_lookups_keep)
  from bound full keep calls show ?thesis by blast
qed

theorem MM_cache_bounded_witness:
  "(0::int) \<le> 1
   \<and> len (cache (MM_lookups M_pronoun (MM_init 1) [text_on])) = 1
   \<and> MM_lookups M_pronoun (MM_lookups M_pronoun (MM_init 1) [text_on]) [text_ona]
       = MM_lookups M_pronoun (MM_init 1) [text_on]
   \<and> map_of (cache (MM_lookups M_pronoun (MM_init 1) [text_on])) text_on = Some ''NPRO''
   \<and> map_of (cache (MM_lookups M_pronoun (MM_lookups M_pronoun (MM_init 1) [text_on]) [text_ona]))
        text_on = Some ''NPRO''"
proof -
  have s: "MM_lookups M_pronoun (MM_init 1) [text_on]
             = \<lparr>cache = [(text_on, ''NPRO'')], cache_size = 1\<rparr>"
    by (simp add: MM_lookups_def MM_get_pos_def MM_init_def M_pronoun_def text_on_def len_def Let_def)
  have l: "len (cache (MM_lookups M_pronoun (MM_init 1) [text_on])) = 1"
    by (simp add: s len_def)
  have m: "map_of (cache (MM_lookups M_pronoun (MM_init 1) [text_on])) text_on = Some ''NPRO''"
    by (simp add: s)
  show ?thesis
    using MM_cache_bounded [of 1 M_pronoun "[text_on]" "[text_ona]" text_on "''NPRO''"] l m
    by simp
qed


subsection \<open>The cache does not change what compute returns\<close>

lemma MM_cache_ok_init: "MM_cache_ok M (MM_init c)"
  by (simp add: MM_cache_ok_def MM_init_def)

lemma MM_cache_ok_entry:
  assumes "MM_cache_ok M s" and "map_of (cache s) w = Some t"
  shows "\<exists>parsed. M w = Inr parsed \<and> t = MM_top_pos parsed"
proof -
  from assms(2) have "(w, t) \<in> set (cache s)" by (rule map_of_SomeD)
  with assms(1) have "case M w of Inl e \<Rightarrow> False | Inr parsed \<Rightarrow> t = MM_top_pos parsed"
    by (auto simp: MM_cache_ok_def list_all_iff)
  then show ?thesis by (cases "M w") auto
qed

lemma MM_get_pos_fresh:
  "fst (MM_get_pos M (MM_init c) w) =
     (if w = [] then Inr ''UNKNOWN''
      else case M w of Inl e \<Rightarrow> Inl e | Inr parsed \<Rightarrow> Inr (MM_top_pos parsed))"
  by (simp add: MM_get_pos_def MM_init_def MM_top_pos_def Let_def split: sum.splits)

lemma MM_get_pos_result:
  assumes "MM_cache_ok M s"
  shows "fst (MM_get_pos M s w) = fst (MM_get_pos M (MM_init c) w)"
proof (cases "map_of (cache s) w")
  case None
  then show ?thesis
    by (simp add: MM_get_pos_def MM_init_def Let_def split: sum.splits)
next
  case (Some t)
  from MM_cache_ok_entry [OF assms Some] obtain parsed
    where "M w = Inr parsed" and "t = MM_top_pos parsed" by blast
  with Some show ?thesis
    by (simp add: MM_get_pos_fresh) (simp add: MM_get_pos_def)
qed

lemma MM_get_pos_cache_ok:
  assumes "MM_cache_ok M s"
  shows "MM_cache_ok M (snd (MM_get_pos M s w))"
  using assms
  by (simp add: MM_get_pos_def MM_cache_ok_def MM_top_pos_def Let_def
      split: option.splits sum.splits)

lemma MM_pos_list_result:
  assumes "MM_cache_ok M s" and "MM_cache_ok M s'"
  shows "fst (MM_pos_list M s ws) = fst (MM_pos_list M s' ws)"
  using assms
proof (induction ws arbitrary: s s')
  case Nil
  then show ?case by simp
next
  case (Cons w ws)
  have r: "fst (MM_get_pos M s w) = fst (MM_get_pos M s' w)"
    using MM_get_pos_result [OF Cons.prems(1), of w 0] MM_get_pos_result [OF Cons.prems(2), of w 0]
    by simp
  have ok: "MM_cache_ok M (snd (MM_get_pos M s w))" "MM_cache_ok M (snd (MM_get_pos M s' w))"
    using Cons.prems by (simp_all add: MM_get_pos_cache_ok)
  from Cons.IH [OF ok]
  have ih: "fst (MM_pos_list M (snd (MM_get_pos M s w)) ws)
              = fst (MM_pos_list M (snd (MM_get_pos M s' w)) ws)" .
  show ?case
    using r ih
    by (cases "MM_get_pos M s w"; cases "MM_get_pos M s' w")
       (auto split: sum.splits prod.splits)
qed

lemma MM_pos_list_cache_ok:
  assumes "MM_cache_ok M s"
  shows "MM_cache_ok M (snd (MM_pos_list M s ws))"
  using assms
proof (induction ws arbitrary: s)
  case Nil
  then show ?case by simp
next
  case (Cons w ws)
  from Cons.prems have a: "MM_cache_ok M (snd (MM_get_pos M s w))" by (rule MM_get_pos_cache_ok)
  from Cons.IH [OF a] have b: "MM_cache_ok M (snd (MM_pos_list M (snd (MM_get_pos M s w)) ws))" .
  from a b show ?case
    by (cases "MM_get_pos M s w") (auto split: sum.splits prod.splits)
qed

lemma MM_compute_cache_ok:
  "MM_cache_ok M s \<Longrightarrow> MM_cache_ok M (snd (MM_compute W L M s text))"
  by (simp add: MM_compute_state MM_pos_list_cache_ok)

lemma MM_compute_result:
  assumes "MM_cache_ok M s" and "MM_cache_ok M s'"
  shows "fst (MM_compute W L M s text) = fst (MM_compute W L M s' text)"
proof -
  have "fst (MM_pos_list M s (MM_extract_words W L text))
          = fst (MM_pos_list M s' (MM_extract_words W L text))"
    using assms by (rule MM_pos_list_result)
  then show ?thesis
    by (cases "MM_pos_list M s (MM_extract_words W L text)";
        cases "MM_pos_list M s' (MM_extract_words W L text)")
       (auto simp: MM_compute_def Let_def split: sum.splits)
qed

lemma MM_calls_cache_ok: "MM_cache_ok M s \<Longrightarrow> MM_cache_ok M (MM_calls W L M s texts)"
  by (induction texts arbitrary: s) (simp_all add: MM_calls_def MM_compute_cache_ok)

text \<open>
  C8. With a deterministic collaborator, what \<open>compute\<close> returns (a result or the raised
  exception) for a text does not depend on the calls made before on the same instance,
  and a second call on the same text returns the same as the first: the cache changes
  only which words are looked up again. The other three analyzers have no state: their
  \<open>compute\<close> is a function of the text alone.
\<close>

theorem MM_compute_cache_independent:
  "fst (MM_compute W L M (MM_calls W L M (MM_init c) texts) text)
     = fst (MM_compute W L M (MM_calls W L M (MM_init c) texts') text)
   \<and> fst (MM_compute W L M
            (snd (MM_compute W L M (MM_calls W L M (MM_init c) texts) text)) text)
     = fst (MM_compute W L M (MM_calls W L M (MM_init c) texts) text)"
proof -
  have ok: "MM_cache_ok M (MM_calls W L M (MM_init c) ts)" for ts
    by (simp add: MM_calls_cache_ok MM_cache_ok_init)
  show ?thesis
    using MM_compute_result [OF ok ok] MM_compute_result [OF MM_compute_cache_ok [OF ok] ok]
    by blast
qed

subsection \<open>Failures of the collaborator\<close>

lemma text_kot_MM_words:
  "MM_extract_words w_latin_cyrillic lower_latin_cyrillic text_kot =
     [[1082, 1086, 1090], [1089, 1087, 1080, 1090], [1089, 1086, 1073, 1072, 1082, 1072],
      [1073, 1077, 1078, 1080, 1090], [1073, 1099, 1089, 1090, 1088, 1086]]"
  by (simp add: MM_extract_words_def text_kot_lower re_findall_words_def cyr_lower_def
      w_latin_cyrillic_def Let_def)

lemma text_on_MM_words:
  "MM_extract_words w_latin_cyrillic lower_latin_cyrillic text_on = [[1086, 1085]]"
  by (simp add: MM_extract_words_def lower_latin_cyrillic_def lower_cp_def text_on_def
      re_findall_words_def cyr_lower_def w_latin_cyrillic_def Let_def)

lemma MM_parse_ok_returns: "MM_parse_ok M w \<Longrightarrow> \<exists>parsed. M w = Inr parsed"
  by (cases "M w") (simp_all add: MM_parse_ok_def)

lemma MM_perfective_loop_returns:
  "list_all (MM_parse_ok M) ws \<Longrightarrow> \<exists>r. MM_perfective_loop M (pc, vc) ws = Inr r"
proof (induction ws arbitrary: pc vc)
  case Nil
  then show ?case by simp
next
  case (Cons w ws)
  then have ok: "MM_parse_ok M w" and rest: "list_all (MM_parse_ok M) ws" by simp_all
  from ok obtain parsed where p: "M w = Inr parsed" by (auto dest: MM_parse_ok_returns)
  show ?case
  proof (cases parsed)
    case Nil
    with p Cons.IH [OF rest] show ?thesis by simp
  next
    case (Cons c cs)
    with p ok Cons.IH [OF rest] show ?thesis
      by (auto simp: MM_parse_ok_def split: if_splits)
  qed
qed

lemma MM_count_diminutives_returns:
  "list_all (MM_parse_ok M) ws \<Longrightarrow> \<exists>n. MM_count_diminutives M ws = Inr n"
proof (induction ws)
  case Nil
  then show ?case by simp
next
  case (Cons w ws)
  then obtain parsed n where "M w = Inr parsed" and "MM_count_diminutives M ws = Inr n"
    by (auto dest: MM_parse_ok_returns)
  then show ?case by (simp add: Let_def)
qed

lemma MM_lemmas_returns:
  "list_all (MM_parse_ok M) ws \<Longrightarrow> \<exists>ls. MM_lemmas M ws = Inr ls"
proof (induction ws)
  case Nil
  then show ?case by simp
next
  case (Cons w ws)
  then obtain parsed ls where "M w = Inr parsed" and "MM_lemmas M ws = Inr ls"
    by (auto dest: MM_parse_ok_returns)
  then show ?case by simp
qed

lemma MM_lemmas_skip_no_candidates:
  "MM_lemmas M ws = MM_lemmas M (filter (\<lambda>w. M w \<noteq> Inr []) ws)"
proof (induction ws)
  case Nil
  then show ?case by simp
next
  case (Cons w ws)
  then show ?case
    by (cases "M w") (auto split: sum.splits list.splits)
qed

lemma MM_get_pos_returns:
  "M w = Inr parsed \<Longrightarrow> \<exists>t. fst (MM_get_pos M s w) = Inr t"
  by (simp add: MM_get_pos_def Let_def split: option.splits)

lemma MM_pos_list_returns:
  "list_all (MM_parse_ok M) ws \<Longrightarrow> \<exists>ts. fst (MM_pos_list M s ws) = Inr ts"
proof (induction ws arbitrary: s)
  case Nil
  then show ?case by simp
next
  case (Cons w ws)
  then obtain parsed where "M w = Inr parsed" by (auto dest: MM_parse_ok_returns)
  then obtain t where t: "fst (MM_get_pos M s w) = Inr t"
    using MM_get_pos_returns by blast
  from Cons have "list_all (MM_parse_ok M) ws" by simp
  from Cons.IH [OF this] obtain ts
    where ts: "fst (MM_pos_list M (snd (MM_get_pos M s w)) ws) = Inr ts" by blast
  from t ts show ?case
    by (cases "MM_get_pos M s w"; cases "MM_pos_list M (snd (MM_get_pos M s w)) ws") auto
qed

lemma MM_get_pos_no_candidates:
  assumes "MM_cache_ok M s" and "M w = Inr []"
  shows "fst (MM_get_pos M s w) = Inr ''UNKNOWN''"
  using MM_get_pos_result [OF assms(1), of w 0] assms(2)
  by (simp add: MM_get_pos_fresh MM_top_pos_def)

text \<open>
  C9, as the spec states it, fails: nothing catches an exception of the collaborator.
  When \<open>parse\<close> raises, \<open>compute\<close> raises the same exception.
\<close>

theorem MM_compute_raise_counterexample:
  "fst (MM_compute w_latin_cyrillic lower_latin_cyrillic M_raising (MM_init 100000) text_kot)
     = Inl ParseFailure"
  by (simp add: MM_compute_def text_kot_MM_words MM_get_pos_def MM_init_def M_raising_def)

text \<open>
  C9, amended. When \<open>parse\<close> returns for every word of the text (and gives an aspect with
  every top candidate tagged VERB or INFN), \<open>compute\<close> returns a result mapping on an
  instance with any history of calls; the words without a candidate are left out of the
  lemmas that \<open>unique_lemmas\<close> counts, and a word without a candidate is tagged UNKNOWN.
\<close>

theorem MM_compute_no_candidates:
  assumes "list_all (MM_parse_ok M) (MM_extract_words W L text)"
  shows "(\<exists>r ls. fst (MM_compute W L M (MM_calls W L M (MM_init c) texts) text) = Inr r
            \<and> MM_lemmas M (filter (\<lambda>w. M w \<noteq> Inr []) (MM_extract_words W L text)) = Inr ls
            \<and> unique_lemmas r = len (remdups ls))
     \<and> (M w = Inr [] \<longrightarrow>
          fst (MM_get_pos M (MM_calls W L M (MM_init c) texts) w) = Inr ''UNKNOWN'')"
proof -
  let ?s = "MM_calls W L M (MM_init c) texts"
  let ?ws = "MM_extract_words W L text"
  have ok: "MM_cache_ok M ?s" by (simp add: MM_calls_cache_ok MM_cache_ok_init)
  obtain ts where ts: "fst (MM_pos_list M ?s ?ws) = Inr ts"
    using MM_pos_list_returns [OF assms] by blast
  obtain pv where pv: "MM_perfective_loop M (0, 0) ?ws = Inr pv"
    using MM_perfective_loop_returns [OF assms] by blast
  obtain n where n: "MM_count_diminutives M ?ws = Inr n"
    using MM_count_diminutives_returns [OF assms] by blast
  obtain ls where ls: "MM_lemmas M ?ws = Inr ls"
    using MM_lemmas_returns [OF assms] by blast
  have ls': "MM_lemmas M (filter (\<lambda>w. M w \<noteq> Inr []) ?ws) = Inr ls"
    using ls MM_lemmas_skip_no_candidates [of M ?ws] by simp
  have "\<exists>r. fst (MM_compute W L M ?s text) = Inr r \<and> unique_lemmas r = len (remdups ls)"
  proof (cases "?ws = []")
    case True
    with ls show ?thesis
      by (simp add: MM_compute_def MM_empty_result_def len_def)
  next
    case False
    with ts pv n ls show ?thesis
      by (cases "MM_pos_list M ?s ?ws"; cases pv)
         (simp add: MM_compute_def MM_compute_perfective_verb_ratio_def Let_def)
  qed
  with ls' ok show ?thesis by (auto simp: MM_get_pos_no_candidates)
qed

theorem MM_compute_no_candidates_witness:
  "list_all (MM_parse_ok M_none) (MM_extract_words w_latin_cyrillic lower_latin_cyrillic text_kot)
   \<and> (\<exists>r. fst (MM_compute w_latin_cyrillic lower_latin_cyrillic M_none
                 (MM_calls w_latin_cyrillic lower_latin_cyrillic M_none (MM_init 100000) [text_on])
                 text_kot) = Inr r
          \<and> unique_lemmas r = 0)
   \<and> M_none text_on = Inr []
   \<and> fst (MM_get_pos M_none
            (MM_calls w_latin_cyrillic lower_latin_cyrillic M_none (MM_init 100000) [text_on])
            text_on) = Inr ''UNKNOWN''"
proof -
  have a: "list_all (MM_parse_ok M_none)
             (MM_extract_words w_latin_cyrillic lower_latin_cyrillic text_kot)"
    by (simp add: text_kot_MM_words MM_parse_ok_def M_none_def)
  have b: "M_none text_on = Inr []" by (simp add: M_none_def)
  have c: "MM_lemmas M_none (filter (\<lambda>w. M_none w \<noteq> Inr [])
             (MM_extract_words w_latin_cyrillic lower_latin_cyrillic text_kot)) = Inr []"
    by (simp add: M_none_def)
  show ?thesis
    using MM_compute_no_candidates [OF a, of 100000 "[text_on]" text_on] a b c
    by (auto simp: len_def)
qed

lemma MM_perfective_loop_raises:
  "w \<in> set ws \<Longrightarrow> M w = Inl e \<Longrightarrow> \<exists>e'. MM_perfective_loop M (pc, vc) ws = Inl e'"
proof (induction ws arbitrary: pc vc)
  case Nil
  then show ?case by simp
next
  case (Cons x xs)
  show ?case
  proof (cases "M x")
    case (Inl e0)
    then show ?thesis by simp
  next
    case (Inr parsed)
    with Cons.prems have "w \<in> set xs" by auto
    from Cons.IH [OF this Cons.prems(2)] Inr show ?thesis
      by (cases parsed) (auto split: option.splits)
  qed
qed

text \<open>
  In general: whenever \<open>parse\<close> raises on a word of the text, \<open>compute\<close> raises, whatever
  the state of the instance.
\<close>

lemma MM_compute_raises:
  assumes "w \<in> set (MM_extract_words W L text)" and "M w = Inl e"
  shows "\<exists>e'. fst (MM_compute W L M s text) = Inl e'"
proof -
  from assms(1) have ne: "MM_extract_words W L text \<noteq> []" by auto
  obtain e' where "MM_perfective_loop M (0, 0) (MM_extract_words W L text) = Inl e'"
    using MM_perfective_loop_raises [of w "MM_extract_words W L text" M e 0 0, OF assms] by blast
  then have "MM_compute_perfective_verb_ratio M (MM_extract_words W L text) = Inl e'"
    by (simp add: MM_compute_perfective_verb_ratio_def)
  with ne show ?thesis
    by (cases "MM_pos_list M s (MM_extract_words W L text)")
       (auto simp: MM_compute_def Let_def split: sum.splits)
qed

subsection \<open>The reported part-of-speech counts\<close>

lemma MM_compute_counts:
  assumes "fst (MM_compute W L M s text) = Inr r" and "MM_extract_words W L text \<noteq> []"
  shows "\<exists>tags. fst (MM_pos_list M s (MM_extract_words W L text)) = Inr tags
     \<and> nouns r = pos_counter tags ''NOUN''
     \<and> verbs r = pos_counter tags ''VERB''
     \<and> adjectives r = pos_counter tags ''ADJF''
     \<and> pronouns r = pos_counter tags ''NPRO'' + pos_counter tags ''ADJPRO''
                     + pos_counter tags ''PRTFPRO''"
  using assms
  by (cases "MM_pos_list M s (MM_extract_words W L text)")
     (auto simp: MM_compute_def Let_def split: sum.splits)

text \<open>
  C1 at a one-word text whose word is tagged NPRO: the word is a pronoun-noun, the
  reported pronoun count is 1, and the reported noun count is 0, not NOUN + NPRO = 1.
\<close>

theorem MM_nouns_without_pronoun_nouns:
  "fst (MM_pos_list M_pronoun (MM_init 100000)
          (MM_extract_words w_latin_cyrillic lower_latin_cyrillic text_on)) = Inr [''NPRO'']
   \<and> (\<exists>r. fst (MM_compute w_latin_cyrillic lower_latin_cyrillic M_pronoun (MM_init 100000) text_on)
              = Inr r
          \<and> nouns r = 0 \<and> pronouns r = 1 \<and> total_words r = 1)"
  by (simp add: MM_compute_def text_on_MM_words MM_get_pos_def MM_init_def M_pronoun_def
      Let_def len_def pos_counter_def MM_compute_perfective_verb_ratio_def)

end
